theory Spec2Isabelle
  imports Complex_Main "HOL-Library.Log_Nat"
begin

section \<open>JavaScript numbers\<close>

text \<open>
  Every \<^verbatim>\<open>number\<close> of the program is an IEEE 754 binary64 value. A finite one is
  modelled by its exact rational value; each arithmetic operator computes the exact
  result and rounds it to the nearest representable value, ties to even
  (\<open>round64\<close>): a significand of 53 bits, and a quantum that is never below
  \<open>2 powi - 1074\<close> (the subnormal range). Infinities, NaN and the sign of zero are not
  represented: the sensor value is clamped into \<open>[-100, 0]\<close> by \<^verbatim>\<open>getMetrics\<close>, and
  every other value of the session engine is computed from such values, the
  constants and the counters, which grow by a tenth of a second at a time.
\<close>

type_synonym number = rat

definition ilog2 :: "rat \<Rightarrow> int" where
  \<comment> \<open>the binary exponent \<open>e\<close> of a non-zero value: \<open>2 powi e \<le> \<bar>x\<bar> < 2 powi (e + 1)\<close>\<close>
  "ilog2 x =
     (let a = bitlen (fst (quotient_of \<bar>x\<bar>)) - bitlen (snd (quotient_of \<bar>x\<bar>))
      in if 2 powi a \<le> \<bar>x\<bar> then a else a - 1)"

definition rne :: "rat \<Rightarrow> int" where
  \<comment> \<open>the nearest integer, a tie going to the even one\<close>
  "rne x =
     (let n = \<lfloor>x\<rfloor>; r = x - of_int n
      in if r < 1 / 2 then n
         else if 1 / 2 < r then n + 1
         else if even n then n else n + 1)"

definition qexp :: "rat \<Rightarrow> int" where
  \<comment> \<open>the exponent of the last place of the binary64 values around \<open>x\<close>\<close>
  "qexp x = max (ilog2 x - 52) (- 1074)"

definition round64 :: "rat \<Rightarrow> number" where
  "round64 x = (if x = 0 then 0 else of_int (rne (x / 2 powi qexp x)) * 2 powi qexp x)"

definition fadd :: "number \<Rightarrow> number \<Rightarrow> number" where
  \<comment> \<open>\<^verbatim>\<open>x + y\<close>\<close>
  "fadd x y = round64 (x + y)"

definition fsub :: "number \<Rightarrow> number \<Rightarrow> number" where
  \<comment> \<open>\<^verbatim>\<open>x - y\<close>\<close>
  "fsub x y = round64 (x - y)"

definition fmul :: "number \<Rightarrow> number \<Rightarrow> number" where
  \<comment> \<open>\<^verbatim>\<open>x * y\<close>\<close>
  "fmul x y = round64 (x * y)"

definition fdiv :: "number \<Rightarrow> number \<Rightarrow> number" where
  \<comment> \<open>\<^verbatim>\<open>x / y\<close>, for a divisor that is not zero (the program divides by constants)\<close>
  "fdiv x y = round64 (x / y)"


definition Math_floor :: "number \<Rightarrow> number" where
  "Math_floor x = of_int \<lfloor>x\<rfloor>"

section \<open>The constants\<close>

definition EMA_ALPHA :: number where
  \<comment> \<open>the literal \<^verbatim>\<open>0.2\<close> denotes the binary64 value nearest to one fifth\<close>
  "EMA_ALPHA = round64 (2 / 10)"

definition MIN_DECIBELS :: number where
  "MIN_DECIBELS = - 100"

definition CALIBRATION_DURATION_MS :: int where
  "CALIBRATION_DURATION_MS = 3000"

definition DEFAULT_NOISE_FLOOR_DB :: number where
  "DEFAULT_NOISE_FLOOR_DB = - 60"

definition TARGET_DB_OFFSET :: number where
  "TARGET_DB_OFFSET = 10"

definition SCREAM_THRESHOLD_DB :: number where
  "SCREAM_THRESHOLD_DB = - 15"

definition MAX_TREE_HEIGHT :: number where
  "MAX_TREE_HEIGHT = 100"

definition POINTS_PER_SECOND :: number where
  "POINTS_PER_SECOND = 10"

definition UPDATE_INTERVAL_MS :: number where
  "UPDATE_INTERVAL_MS = 100"

section \<open>The types\<close>

datatype AppState = IDLE | CALIBRATING | READING | PAUSED | COMPLETED

record SessionStats =
  duration :: number
  validDuration :: number
  tooLoudDuration :: number
  treesPlanted :: number

section \<open>The audio service\<close>

text \<open>
  The fields of the service object hold browser objects or \<^verbatim>\<open>null\<close>; the model keeps
  whether each one is set. What the browser does when \<^verbatim>\<open>start\<close> acquires the
  microphone is an input: the acquisition goes through, or one of the calls of the
  \<^verbatim>\<open>try\<close> block throws, after the assignments before it have been made.
\<close>

record AudioService =
  audioContext :: bool
  analyser :: bool
  microphone :: bool
  dataArray :: bool
  stream :: bool

datatype acquisition =
  Succeeds | GetUserMediaRejects | AudioContextThrows | CreateSourceThrows

datatype error = MicrophoneError
  \<comment> \<open>\<^verbatim>\<open>Error('Microphone permission denied or not supported.')\<close>\<close>

definition start :: "acquisition \<Rightarrow> AudioService \<Rightarrow> (error + unit) \<times> AudioService" where
  "start env a =
     (if audioContext a then (Inr (), a)
      else case env of
        GetUserMediaRejects \<Rightarrow> (Inl MicrophoneError, a)
      | AudioContextThrows \<Rightarrow> (Inl MicrophoneError, a\<lparr>stream := True\<rparr>)
      | CreateSourceThrows \<Rightarrow>
          (Inl MicrophoneError, a\<lparr>stream := True, audioContext := True, analyser := True\<rparr>)
      | Succeeds \<Rightarrow>
          (Inr (), a\<lparr>stream := True, audioContext := True, analyser := True,
                     microphone := True, dataArray := True\<rparr>))"

definition stop :: "AudioService \<Rightarrow> AudioService" where
  "stop a = a\<lparr>microphone := False, analyser := False, stream := False, audioContext := False\<rparr>"

definition getMetrics :: "AudioService \<Rightarrow> number \<Rightarrow> number" where
  \<comment> \<open>the \<^verbatim>\<open>db\<close> of the metrics; \<open>sensed\<close> is the level computed from the samples
     of the microphone, before the clamp\<close>
  "getMetrics a sensed =
     (if \<not> analyser a \<or> \<not> dataArray a then MIN_DECIBELS
      else max MIN_DECIBELS (min sensed 0))"

section \<open>The session engine\<close>

datatype message = AllowMicrophoneToUseApp | MicrophonePermissionNeeded
  \<comment> \<open>the two texts shown to the user, of \<^verbatim>\<open>handleStartCalibration\<close> and of
     \<^verbatim>\<open>handleStartReading\<close>\<close>

datatype VolumeStatus = Calibrating | Idle | Loud | Good | Quiet

record App =
  appState :: AppState
  currentDb :: number
  noiseFloor :: number
  stats :: SessionStats
  permissionError :: "message option"
  calibrationStartTime :: int
  audioService :: AudioService

definition zeroStats :: SessionStats where
  "zeroStats = \<lparr>duration = 0, validDuration = 0, tooLoudDuration = 0, treesPlanted = 0\<rparr>"

definition initialApp :: App where
  \<comment> \<open>the initial values of the state hooks, of the refs and of the service object\<close>
  "initialApp =
     \<lparr>appState = IDLE, currentDb = - 100, noiseFloor = DEFAULT_NOISE_FLOOR_DB,
      stats = zeroStats, permissionError = None, calibrationStartTime = 0,
      audioService = \<lparr>audioContext = False, analyser = False, microphone = False,
                       dataArray = False, stream = False\<rparr>\<rparr>"

definition targetDb :: "App \<Rightarrow> number" where
  "targetDb s = fadd (noiseFloor s) TARGET_DB_OFFSET"

definition TREE_CYCLE_SECONDS :: number where
  "TREE_CYCLE_SECONDS = fdiv MAX_TREE_HEIGHT POINTS_PER_SECOND"



definition getVolumeStatus :: "App \<Rightarrow> number \<Rightarrow> VolumeStatus" where
  "getVolumeStatus s db =
     (if appState s = CALIBRATING then Calibrating
      else if appState s \<noteq> READING then Idle
      else if db > SCREAM_THRESHOLD_DB then Loud
      else if db \<ge> targetDb s then Good
      else Quiet)"

text \<open>
  The game loop. \<open>sensed\<close> and \<open>now\<close> are what the microphone and the clock give
  at this tick. The smoothing constant is a parameter, so that two runs with different
  constants can be compared; the program is the instance \<open>tick\<close>.
\<close>

definition tickWith :: "number \<Rightarrow> number \<Rightarrow> int \<Rightarrow> App \<Rightarrow> App" where
  "tickWith alpha sensed now s =
     (let db = getMetrics (audioService s) sensed;
          s1 = s\<lparr>currentDb := fadd (fmul (currentDb s) (fsub 1 alpha)) (fmul db alpha)\<rparr>
      in if appState s = CALIBRATING then
           (let elapsed = now - calibrationStartTime s
            in if elapsed > CALIBRATION_DURATION_MS then
                 (let detectedFloor = max (- 80) (min (- 30) db)
                  in s1\<lparr>noiseFloor := detectedFloor, appState := IDLE\<rparr>)
               else s1)
         else if appState s = READING then
           (let timeDelta = fdiv UPDATE_INTERVAL_MS 1000
            in if db > SCREAM_THRESHOLD_DB then
                 s1\<lparr>stats := (stats s)
                    \<lparr>duration := fadd (duration (stats s)) timeDelta,
                     tooLoudDuration := fadd (tooLoudDuration (stats s)) timeDelta\<rparr>\<rparr>
               else if db \<ge> targetDb s then
                 (let newValidDuration = fadd (validDuration (stats s)) timeDelta;
                      newTreesPlanted = Math_floor (fdiv newValidDuration TREE_CYCLE_SECONDS)
                  in s1\<lparr>stats := (stats s)
                       \<lparr>duration := fadd (duration (stats s)) timeDelta,
                        validDuration := newValidDuration,
                        treesPlanted := newTreesPlanted\<rparr>\<rparr>)
               else
                 s1\<lparr>stats := (stats s)\<lparr>duration := fadd (duration (stats s)) timeDelta\<rparr>\<rparr>)
         else s1)"

definition tick :: "number \<Rightarrow> int \<Rightarrow> App \<Rightarrow> App" where
  "tick = tickWith EMA_ALPHA"

definition timerArmed :: "App \<Rightarrow> bool" where
  \<comment> \<open>the effect sets the interval in these two states and clears it on leaving them\<close>
  "timerArmed s \<longleftrightarrow> appState s = CALIBRATING \<or> appState s = READING"

definition handleStartCalibration :: "acquisition \<Rightarrow> int \<Rightarrow> App \<Rightarrow> App" where
  "handleStartCalibration env now s =
     (let s1 = s\<lparr>permissionError := None\<rparr>
      in case start env (audioService s1) of
           (Inr _, a) \<Rightarrow>
             s1\<lparr>audioService := a, calibrationStartTime := now, appState := CALIBRATING\<rparr>
         | (Inl _, a) \<Rightarrow>
             s1\<lparr>audioService := a, permissionError := Some AllowMicrophoneToUseApp\<rparr>)"

definition handleStartReading :: "acquisition \<Rightarrow> App \<Rightarrow> App" where
  "handleStartReading env s =
     (let s1 = s\<lparr>permissionError := None\<rparr>
      in if \<not> audioContext (audioService s1) then
           (case start env (audioService s1) of
              (Inr _, a) \<Rightarrow> s1\<lparr>audioService := a, appState := READING\<rparr>
            | (Inl _, a) \<Rightarrow>
                s1\<lparr>audioService := a, permissionError := Some MicrophonePermissionNeeded\<rparr>)
         else s1\<lparr>appState := READING\<rparr>)"

definition handleStop :: "App \<Rightarrow> App" where
  "handleStop s = s\<lparr>appState := COMPLETED, audioService := stop (audioService s)\<rparr>"

definition handleReset :: "App \<Rightarrow> App" where
  "handleReset s =
     s\<lparr>audioService := stop (audioService s),
       stats := \<lparr>duration = 0, validDuration = 0, tooLoudDuration = 0, treesPlanted = 0\<rparr>,
       appState := IDLE\<rparr>"

definition handleContinue :: "App \<Rightarrow> App" where
  "handleContinue s =
     s\<lparr>appState := IDLE,
       stats := \<lparr>duration = 0, validDuration = 0, tooLoudDuration = 0, treesPlanted = 0\<rparr>\<rparr>"

text \<open>
  What happens to the component: the interval fires, or the user presses a button. A
  button works in the states in which the page renders it enabled; the interval fires
  only while it is set. A callback runs to its end before the next one starts, and
  sees the state the one before it left: the two start handlers, which wait for the
  microphone, are taken as one step, so a press or a tick during that wait is not among
  the runs.
\<close>

datatype event =
  Tick number int
| StartCalibration acquisition int
| StartReading acquisition
| Stop
| Reset
| Continue

definition stepWith :: "number \<Rightarrow> App \<Rightarrow> event \<Rightarrow> App" where
  "stepWith alpha s e =
     (case e of
        Tick sensed now \<Rightarrow> if timerArmed s then tickWith alpha sensed now s else s
      | StartCalibration env now \<Rightarrow>
          if appState s = IDLE then handleStartCalibration env now s else s
      | StartReading env \<Rightarrow>
          if appState s \<noteq> READING \<and> appState s \<noteq> CALIBRATING \<and> appState s \<noteq> COMPLETED
          then handleStartReading env s else s
      | Stop \<Rightarrow> if appState s = READING then handleStop s else s
      | Reset \<Rightarrow>
          if appState s = PAUSED \<or> appState s = READING then handleReset s else s
      | Continue \<Rightarrow> if appState s = COMPLETED then handleContinue s else s)"

fun runWith :: "number \<Rightarrow> App \<Rightarrow> event list \<Rightarrow> App" where
  "runWith alpha s [] = s"
| "runWith alpha s (e # es) = runWith alpha (stepWith alpha s e) es"

definition step :: "App \<Rightarrow> event \<Rightarrow> App" where
  "step = stepWith EMA_ALPHA"

definition run :: "App \<Rightarrow> event list \<Rightarrow> App" where
  "run = runWith EMA_ALPHA"

definition runTicks :: "App \<Rightarrow> (number \<times> int) list \<Rightarrow> App" where
  \<comment> \<open>the interval firing once for each pair of a sensed level and a clock value\<close>
  "runTicks s ts = run s (map (\<lambda>(sensed, now). Tick sensed now) ts)"

subsection \<open>Quantities the properties are stated with\<close>

definition timeDelta :: number where
  \<comment> \<open>the \<^verbatim>\<open>timeDelta\<close> of a tick\<close>
  "timeDelta = fdiv UPDATE_INTERVAL_MS 1000"

fun accumulate :: "nat \<Rightarrow> number" where
  \<comment> \<open>the value of a counter that started at zero and was advanced \<open>n\<close> times\<close>
  "accumulate 0 = 0"
| "accumulate (Suc n) = fadd (accumulate n) timeDelta"

definition verdict :: "App \<Rightarrow> number \<times> int \<Rightarrow> VolumeStatus" where
  \<comment> \<open>how a tick with this sensed level is classified in state \<open>s\<close>\<close>
  "verdict s t = getVolumeStatus s (getMetrics (audioService s) (fst t))"

definition scoringEq :: "App \<Rightarrow> App \<Rightarrow> bool" where
  \<comment> \<open>two states that differ at most in the smoothed level\<close>
  "scoringEq s1 s2 \<longleftrightarrow>
     appState s1 = appState s2 \<and> noiseFloor s1 = noiseFloor s2 \<and> stats s1 = stats s2 \<and>
     permissionError s1 = permissionError s2 \<and>
     calibrationStartTime s1 = calibrationStartTime s2 \<and> audioService s1 = audioService s2"

subsection \<open>Concrete sessions\<close>

definition freshReading :: App where
  \<comment> \<open>the component after its first render and a successful press of the start button\<close>
  "freshReading = handleStartReading Succeeds initialApp"

definition fourGoodTwoLoud :: "(number \<times> int) list" where
  "fourGoodTwoLoud =
     [(- 40, 0), (- 40, 100), (- 40, 200), (- 40, 300), (- 10, 400), (- 10, 500)]"

definition goodLoudQuiet :: "(number \<times> int) list" where
  "goodLoudQuiet = [(- 40, 0), (- 10, 100), (- 70, 200)]"


definition calibrating :: App where
  \<comment> \<open>the component after its first render and a successful press of the calibration
     button at time 0\<close>
  "calibrating = handleStartCalibration Succeeds 0 initialApp"

definition shortSession :: "event list" where
  "shortSession =
     [StartReading Succeeds, Tick (- 40) 0, Tick (- 10) 100, Stop, Continue,
      StartReading Succeeds, Tick (- 70) 200, Reset]"

definition calibratedSession :: "event list" where
  "calibratedSession =
     [StartCalibration Succeeds 0, Tick (- 45) 1000, Tick (- 45) 3100,
      StartReading Succeeds, Tick (- 30) 3200, Tick (- 10) 3300]"

section \<open>Rounding to binary64\<close>

lemma two_powi_pos: "(0::rat) < 2 powi k"
  by simp

lemma two_powi_mono: "a \<le> b \<Longrightarrow> (2::rat) powi a \<le> 2 powi b"
  by (rule power_int_increasing) simp_all

lemma two_powi_less_cancel:
  assumes "(2::rat) powi a < 2 powi b"
  shows "a < b"
proof (rule ccontr)
  assume "\<not> a < b"
  then have "b \<le> a" by simp
  then have "(2::rat) powi b \<le> 2 powi a" by (rule two_powi_mono)
  with assms show False by simp
qed

lemma two_powi_strict_mono: "a < b \<Longrightarrow> (2::rat) powi a < 2 powi b"
  by (rule power_int_strict_increasing) simp_all

lemma two_powi_Suc: "(2::rat) powi (k + 1) = 2 * 2 powi k"
  by (simp add: power_int_add)

lemma bitlen_lower: "0 < n \<Longrightarrow> (2::rat) powi (bitlen n - 1) \<le> of_int n"
proof -
  assume n: "0 < n"
  then have b: "1 \<le> bitlen n" using bitlen_ge_iff_power [of 1 n] by simp
  from bitlen_bounds [OF n] have "(2::int) ^ nat (bitlen n - 1) \<le> n" by simp
  then have "(of_int ((2::int) ^ nat (bitlen n - 1)) :: rat) \<le> of_int n"
    by (simp only: of_int_le_iff)
  with b show ?thesis by (simp add: power_int_def)
qed

lemma bitlen_upper: "0 < n \<Longrightarrow> (of_int n :: rat) < 2 powi bitlen n"
proof -
  assume n: "0 < n"
  from bitlen_bounds [OF n] have "n < (2::int) ^ nat (bitlen n)" by simp
  then have "(of_int n :: rat) < of_int ((2::int) ^ nat (bitlen n))"
    by (simp only: of_int_less_iff)
  then show ?thesis using bitlen_nonneg [of n] by (simp add: power_int_def)
qed

lemma ilog2_bounds_pos:
  assumes "0 < x"
  shows "2 powi ilog2 x \<le> x \<and> x < 2 powi (ilog2 x + 1)"
proof -
  obtain p d where pd: "quotient_of x = (p, d)" by (cases "quotient_of x")
  have d: "0 < d" using quotient_of_denom_pos [OF pd] .
  have x: "x = of_int p / of_int d" using quotient_of_div [OF pd] .
  have p: "0 < p" using assms d x by (simp add: zero_less_divide_iff)
  define a where "a = bitlen p - bitlen d"
  have up: "x < 2 powi (a + 1)"
  proof -
    have "of_int p < (2::rat) powi bitlen p" using bitlen_upper [OF p] .
    moreover have "(2::rat) powi (bitlen d - 1) \<le> of_int d" using bitlen_lower [OF d] .
    ultimately have "of_int p * (2::rat) powi (bitlen d - 1) < 2 powi bitlen p * of_int d"
      using d p by (intro mult_less_le_imp_less) simp_all
    then have "x * 2 powi (bitlen d - 1) < 2 powi bitlen p"
      using d by (simp add: x field_simps)
    then have "x < 2 powi bitlen p / 2 powi (bitlen d - 1)"
      by (simp add: field_simps)
    also have "\<dots> = 2 powi (a + 1)"
      by (simp add: a_def power_int_diff power_int_add)
    finally show ?thesis .
  qed
  have lo: "2 powi (a - 1) \<le> x"
  proof -
    have "(2::rat) powi (bitlen p - 1) \<le> of_int p" using bitlen_lower [OF p] .
    moreover have "of_int d \<le> (2::rat) powi bitlen d" using bitlen_upper [OF d] by simp
    ultimately have "(2::rat) powi (bitlen p - 1) * of_int d \<le> of_int p * 2 powi bitlen d"
      using d p by (intro mult_mono) simp_all
    then have "2 powi (bitlen p - 1) \<le> x * 2 powi bitlen d"
      using d by (simp add: x field_simps)
    then have "2 powi (bitlen p - 1) / 2 powi bitlen d \<le> x"
      by (simp add: field_simps)
    moreover have "(2::rat) powi (bitlen p - 1) / 2 powi bitlen d = 2 powi (a - 1)"
      by (simp add: a_def power_int_diff)
    ultimately show ?thesis by simp
  qed
  have il: "ilog2 x = (if 2 powi a \<le> x then a else a - 1)"
    using assms by (simp add: ilog2_def pd a_def Let_def)
  show ?thesis
  proof (cases "2 powi a \<le> x")
    case True
    with il up show ?thesis by simp
  next
    case False
    with il lo show ?thesis by simp
  qed
qed

lemma ilog2_abs: "ilog2 \<bar>x\<bar> = ilog2 x"
  by (simp add: ilog2_def)

lemma ilog2_bounds:
  assumes "x \<noteq> 0"
  shows "2 powi ilog2 x \<le> \<bar>x\<bar> \<and> \<bar>x\<bar> < 2 powi (ilog2 x + 1)"
  using ilog2_bounds_pos [of "\<bar>x\<bar>"] assms by (simp add: ilog2_abs)

lemma ilog2_unique:
  assumes "2 powi e \<le> \<bar>x\<bar>" and "\<bar>x\<bar> < 2 powi (e + 1)"
  shows "ilog2 x = e"
proof -
  have "0 < \<bar>x\<bar>" using assms(1) two_powi_pos [of e] by linarith
  then have nz: "x \<noteq> 0" by simp
  from ilog2_bounds [OF nz] have b1: "2 powi ilog2 x \<le> \<bar>x\<bar>" and b2: "\<bar>x\<bar> < 2 powi (ilog2 x + 1)"
    by simp_all
  from assms(1) b2 have "(2::rat) powi e < 2 powi (ilog2 x + 1)" by linarith
  then have "e < ilog2 x + 1" by (rule two_powi_less_cancel)
  moreover from b1 assms(2) have "(2::rat) powi ilog2 x < 2 powi (e + 1)" by linarith
  then have "ilog2 x < e + 1" by (rule two_powi_less_cancel)
  ultimately show ?thesis by simp
qed

lemma ilog2_mono:
  assumes "0 < x" and "x \<le> y"
  shows "ilog2 x \<le> ilog2 y"
proof -
  have "2 powi ilog2 x \<le> x" using ilog2_bounds_pos [OF assms(1)] by simp
  moreover have "y < 2 powi (ilog2 y + 1)" using ilog2_bounds_pos [of y] assms by simp
  ultimately have "(2::rat) powi ilog2 x < 2 powi (ilog2 y + 1)" using assms(2) by linarith
  then have "ilog2 x < ilog2 y + 1" by (rule two_powi_less_cancel)
  then show ?thesis by simp
qed


lemma rne_cases: "rne x = \<lfloor>x\<rfloor> \<or> rne x = \<lfloor>x\<rfloor> + 1"
  by (simp add: rne_def Let_def)

lemma rne_of_int: "rne (of_int n) = n"
  by (simp add: rne_def Let_def)

lemma rne_ge: "of_int n \<le> x \<Longrightarrow> n \<le> rne x"
proof -
  assume "of_int n \<le> x"
  then have "n \<le> \<lfloor>x\<rfloor>" by (simp add: le_floor_iff)
  with rne_cases [of x] show ?thesis by auto
qed

lemma rne_le: "x \<le> of_int n \<Longrightarrow> rne x \<le> n"
proof (cases "x = of_int n")
  case True
  then show ?thesis by (simp add: rne_of_int)
next
  case False
  assume "x \<le> of_int n"
  with False have "x < of_int n" by simp
  then have "\<lfloor>x\<rfloor> < n" by (simp add: floor_less_iff)
  with rne_cases [of x] show ?thesis by auto
qed

lemma qexp_ge: "- 1074 \<le> qexp x" and qexp_ge_ilog2: "ilog2 x - 52 \<le> qexp x"
  by (simp_all add: qexp_def)

lemma round64_exact:
  assumes x: "x = of_int n * 2 powi k" and k: "qexp x \<le> k"
  shows "round64 x = x"
proof (cases "x = 0")
  case True
  then show ?thesis by (simp add: round64_def)
next
  case False
  have "x / 2 powi qexp x = of_int n * 2 powi (k - qexp x)"
    by (simp add: x power_int_diff)
  also have "\<dots> = of_int (n * 2 ^ nat (k - qexp x))"
    using k by (simp add: power_int_def)
  finally have "rne (x / 2 powi qexp x) = n * 2 ^ nat (k - qexp x)"
    by (simp only: rne_of_int)
  then have "round64 x = of_int (n * 2 ^ nat (k - qexp x)) * 2 powi qexp x"
    using False by (simp add: round64_def)
  also have "\<dots> = of_int n * (2 powi (k - qexp x) * 2 powi qexp x)"
    using k by (simp add: power_int_def)
  also have "\<dots> = of_int n * 2 powi k"
    by (simp add: power_int_add [symmetric])
  finally show ?thesis by (simp add: x)
qed

lemma scaled_abs_less:
  assumes "x \<noteq> 0"
  shows "\<bar>x / 2 powi qexp x\<bar> < 2 ^ 53"
proof -
  have "\<bar>x\<bar> < 2 powi (ilog2 x + 1)" using ilog2_bounds [OF assms] by simp
  also have "\<dots> \<le> 2 powi (qexp x + 53)"
    using qexp_ge_ilog2 [of x] by (intro two_powi_mono) simp
  also have "\<dots> = 2 powi qexp x * 2 ^ 53"
    by (simp add: power_int_add)
  finally have "\<bar>x\<bar> / 2 powi qexp x < 2 ^ 53"
    by (simp add: field_simps)
  then show ?thesis by (simp add: abs_divide)
qed

lemma rne_scaled_bounds:
  assumes "x \<noteq> 0"
  shows "\<bar>rne (x / 2 powi qexp x)\<bar> \<le> 2 ^ 53"
proof -
  let ?z = "x / 2 powi qexp x"
  from scaled_abs_less [OF assms] have "?z < 2 ^ 53 \<and> - ?z < 2 ^ 53"
    by (simp only: abs_less_iff)
  then have "?z \<le> of_int (2 ^ 53)" and "of_int (- (2 ^ 53)) \<le> ?z"
    by simp_all
  then have "rne ?z \<le> 2 ^ 53" and "- (2 ^ 53) \<le> rne ?z"
    by (auto intro: rne_le rne_ge simp del: of_int_power of_int_minus)
  then show ?thesis by simp
qed

lemma round64_idem: "round64 (round64 x) = round64 x"
proof (cases "x = 0")
  case True
  then show ?thesis by (simp add: round64_def)
next
  case False
  define q where "q = qexp x"
  define n where "n = rne (x / 2 powi q)"
  define r where "r = of_int n * (2::rat) powi q"
  have r: "round64 x = r" using False by (simp add: round64_def r_def n_def q_def)
  have nb: "\<bar>n\<bar> \<le> 2 ^ 53" using rne_scaled_bounds [OF False] by (simp add: n_def q_def)
  have qlo: "- 1074 \<le> q" by (simp add: q_def qexp_ge)
  have "round64 r = r"
  proof (cases "n = 0")
    case True
    then show ?thesis by (simp add: r_def round64_def)
  next
    case n0: False
    then have rnz: "r \<noteq> 0" by (simp add: r_def)
    show ?thesis
    proof (cases "\<bar>n\<bar> = 2 ^ 53")
      case True
      then have "n = 2 ^ 53 \<or> n = - (2 ^ 53)" by (auto simp: abs_if split: if_splits)
      then obtain sg :: int where sg: "sg = 1 \<or> sg = - 1" and nsg: "n = sg * 2 ^ 53"
        by auto
      have req: "r = of_int sg * 2 powi (q + 53)"
        by (simp add: r_def nsg power_int_add)
      have "\<bar>r\<bar> = 2 powi (q + 53)" using sg by (auto simp: req abs_mult)
      moreover have "(2::rat) powi (q + 53) < 2 powi (q + 53 + 1)"
        by (rule two_powi_strict_mono) simp
      ultimately have "ilog2 r = q + 53"
        by (intro ilog2_unique) simp_all
      then have "qexp r \<le> q + 53" using qlo by (simp add: qexp_def)
      with req show ?thesis by (rule round64_exact)
    next
      case False
      with nb have "\<bar>n\<bar> < 2 ^ 53" by simp
      then have "(of_int \<bar>n\<bar> :: rat) < of_int (2 ^ 53)" by (simp only: of_int_less_iff)
      then have "\<bar>r\<bar> < 2 ^ 53 * 2 powi q"
        by (simp add: r_def abs_mult)
      also have "\<dots> = 2 powi (q + 53)" by (simp add: power_int_add)
      finally have "\<bar>r\<bar> < 2 powi (q + 53)" .
      moreover have "2 powi ilog2 r \<le> \<bar>r\<bar>" using ilog2_bounds [OF rnz] by simp
      ultimately have "(2::rat) powi ilog2 r < 2 powi (q + 53)" by linarith
      then have "ilog2 r < q + 53" by (rule two_powi_less_cancel)
      then have "qexp r \<le> q" using qlo by (simp add: qexp_def)
      with r_def show ?thesis by (rule round64_exact)
    qed
  qed
  with r show ?thesis by simp
qed

lemma round64_nonneg: "0 \<le> y \<Longrightarrow> 0 \<le> round64 y"
proof -
  assume "0 \<le> y"
  then have "of_int 0 \<le> y / 2 powi qexp y" by simp
  then have "0 \<le> rne (y / 2 powi qexp y)" by (rule rne_ge)
  then show ?thesis by (simp add: round64_def)
qed

lemma round64_ge:
  assumes s0: "0 \<le> s" and sd: "round64 s = s" and sy: "s \<le> y"
  shows "s \<le> round64 y"
proof (cases "s = 0")
  case True
  with sy show ?thesis by (simp add: round64_nonneg)
next
  case False
  with s0 have sp: "0 < s" by simp
  with sy have yp: "0 < y" by simp
  define m where "m = rne (s / 2 powi qexp s)"
  have sm: "s = of_int m * 2 powi qexp s"
    using sd False by (simp add: round64_def m_def)
  have ry: "round64 y = of_int (rne (y / 2 powi qexp y)) * 2 powi qexp y"
    using yp by (simp add: round64_def)
  have il: "ilog2 s \<le> ilog2 y" using sp sy by (rule ilog2_mono)
  then have qq: "qexp s \<le> qexp y" by (simp add: qexp_def)
  show ?thesis
  proof (cases "qexp s = qexp y")
    case True
    have "of_int m = s / 2 powi qexp y"
      using sm True by (simp add: field_simps)
    also have "\<dots> \<le> y / 2 powi qexp y"
      using sy by (simp add: divide_right_mono)
    finally have "m \<le> rne (y / 2 powi qexp y)" by (rule rne_ge)
    then have "(of_int m :: rat) \<le> of_int (rne (y / 2 powi qexp y))"
      by (simp only: of_int_le_iff)
    then have "(of_int m :: rat) * 2 powi qexp y \<le> of_int (rne (y / 2 powi qexp y)) * 2 powi qexp y"
      by (simp add: mult_right_mono)
    with sm True ry show ?thesis by simp
  next
    case False
    with qq have lt: "qexp s < qexp y" by simp
    with qexp_ge [of s] have qy: "qexp y = ilog2 y - 52" by (simp add: qexp_def max_def split: if_splits)
    from lt qexp_ge_ilog2 [of s] qy have il2: "ilog2 s + 1 \<le> ilog2 y" by simp
    have "2 powi ilog2 y \<le> y" using ilog2_bounds_pos [OF yp] by simp
    then have "2 powi ilog2 y / 2 powi qexp y \<le> y / 2 powi qexp y"
      by (simp add: divide_right_mono)
    moreover have "2 powi ilog2 y / 2 powi qexp y = (of_int (2 ^ 52) :: rat)"
      by (simp add: qy power_int_diff [symmetric])
    ultimately have "(of_int (2 ^ 52) :: rat) \<le> y / 2 powi qexp y" by simp
    then have "2 ^ 52 \<le> rne (y / 2 powi qexp y)" by (rule rne_ge)
    then have "(of_int (2 ^ 52) :: rat) \<le> of_int (rne (y / 2 powi qexp y))"
      by (simp only: of_int_le_iff)
    then have "of_int (2 ^ 52) * 2 powi qexp y \<le> round64 y"
      by (simp add: ry mult_right_mono)
    moreover have "(of_int (2 ^ 52) :: rat) * 2 powi qexp y = 2 powi ilog2 y"
      by (simp add: qy power_int_diff)
    ultimately have "2 powi ilog2 y \<le> round64 y" by simp
    moreover have "s < 2 powi (ilog2 s + 1)" using ilog2_bounds_pos [OF sp] by simp
    moreover have "(2::rat) powi (ilog2 s + 1) \<le> 2 powi ilog2 y" using il2 by (rule two_powi_mono)
    ultimately show ?thesis by linarith
  qed
qed

lemma round64_normal:
  assumes "2 powi e \<le> \<bar>x\<bar>" and "\<bar>x\<bar> < 2 powi (e + 1)" and "- 1022 \<le> e"
  shows "round64 x = of_int (rne (x / 2 powi (e - 52))) * 2 powi (e - 52)"
proof -
  have "ilog2 x = e" using assms(1,2) by (rule ilog2_unique)
  then have "qexp x = e - 52" using assms(3) by (simp add: qexp_def)
  moreover have "0 < \<bar>x\<bar>" using assms(1) two_powi_pos [of e] by linarith
  then have "x \<noteq> 0" by simp
  ultimately show ?thesis by (simp add: round64_def)
qed



lemma rne_minus: "rne (- x) = - rne x"
proof (cases "x = of_int \<lfloor>x\<rfloor>")
  case True
  then obtain n where "x = of_int n" ..
  then show ?thesis by (simp add: rne_of_int flip: of_int_minus)
next
  case False
  then have fl: "\<lfloor>- x\<rfloor> = - \<lfloor>x\<rfloor> - 1"
    by (simp add: floor_minus ceiling_altdef)
  have "of_int \<lfloor>x\<rfloor> \<le> x" by (rule of_int_floor_le)
  with False have pos: "0 < x - of_int \<lfloor>x\<rfloor>" by linarith
  show ?thesis
    unfolding rne_def Let_def fl using pos by (auto simp: field_simps)
qed

lemma qexp_minus: "qexp (- x) = qexp x"
  by (simp add: qexp_def ilog2_def)

lemma round64_minus: "round64 (- x) = - round64 x"
  by (simp add: round64_def qexp_minus rne_minus)

lemma round64_of_int:
  assumes "\<bar>n\<bar> \<le> 2 ^ 53"
  shows "round64 (of_int n) = of_int n"
proof (cases "n = 0")
  case True
  then show ?thesis by (simp add: round64_def)
next
  case False
  let ?x = "of_int n :: rat"
  have nz: "?x \<noteq> 0" using False by simp
  show ?thesis
  proof (cases "\<bar>n\<bar> = 2 ^ 53")
    case True
    then have "n = 2 ^ 53 \<or> n = - (2 ^ 53)" by (auto simp: abs_if split: if_splits)
    then obtain sg :: int where sg: "sg = 1 \<or> sg = - 1" and nsg: "n = sg * 2 ^ 53"
      by auto
    have req: "?x = of_int sg * 2 powi 53" by (simp add: nsg)
    have "\<bar>?x\<bar> = 2 powi 53" using sg by (auto simp: req abs_mult)
    moreover have "(2::rat) powi 53 < 2 powi (53 + 1)"
      by (rule two_powi_strict_mono) simp
    ultimately have "ilog2 ?x = 53"
      by (intro ilog2_unique) simp_all
    then have "qexp ?x \<le> 53" by (simp add: qexp_def)
    with req show ?thesis by (rule round64_exact)
  next
    case False
    with assms have "\<bar>n\<bar> < 2 ^ 53" by simp
    then have "(of_int \<bar>n\<bar> :: rat) < of_int (2 ^ 53)" by (simp only: of_int_less_iff)
    then have "\<bar>?x\<bar> < 2 powi 53" by simp
    moreover have "2 powi ilog2 ?x \<le> \<bar>?x\<bar>" using ilog2_bounds [OF nz] by simp
    ultimately have "(2::rat) powi ilog2 ?x < 2 powi 53" by linarith
    then have "ilog2 ?x < 53" by (rule two_powi_less_cancel)
    then have "qexp ?x \<le> 0" by (simp add: qexp_def)
    moreover have "?x = of_int n * 2 powi 0" by simp
    ultimately show ?thesis by (intro round64_exact)
  qed
qed

lemma round64_numeral [simp]:
  "numeral k \<le> (2::int) ^ 53 \<Longrightarrow> round64 (numeral k) = numeral k"
  "numeral k \<le> (2::int) ^ 53 \<Longrightarrow> round64 (- numeral k) = - numeral k"
  using round64_of_int [of "numeral k"] round64_of_int [of "- numeral k"] by simp_all

lemma round64_0 [simp]: "round64 0 = 0"
  by (simp add: round64_def)

lemma round64_1 [simp]: "round64 1 = 1"
  using round64_of_int [of 1] by simp


lemma rne_div:
  assumes "0 < b"
  shows "rne (of_int a / of_int b) =
    (if 2 * (a mod b) < b then a div b
     else if b < 2 * (a mod b) then a div b + 1
     else if even (a div b) then a div b else a div b + 1)"
proof -
  let ?x = "of_int a / of_int b :: rat"
  have fl: "\<lfloor>?x\<rfloor> = a div b" by (rule floor_divide_of_int_eq)
  have "of_int a = (of_int (a div b) * of_int b + of_int (a mod b) :: rat)"
    by (simp flip: of_int_mult of_int_add)
  then have fr: "?x - of_int (a div b) = of_int (a mod b) / of_int b"
    using assms by (simp add: field_simps)
  have lt: "of_int (a mod b) / (of_int b :: rat) < 1 / 2 \<longleftrightarrow> 2 * (a mod b) < b"
  proof -
    have "of_int (a mod b) / (of_int b :: rat) < 1 / 2 \<longleftrightarrow> (of_int (2 * (a mod b)) :: rat) < of_int b"
      using assms by (simp add: field_simps)
    then show ?thesis by (simp only: of_int_less_iff)
  qed
  have gt: "1 / 2 < of_int (a mod b) / (of_int b :: rat) \<longleftrightarrow> b < 2 * (a mod b)"
  proof -
    have "1 / 2 < of_int (a mod b) / (of_int b :: rat) \<longleftrightarrow> (of_int b :: rat) < of_int (2 * (a mod b))"
      using assms by (simp add: field_simps)
    then show ?thesis by (simp only: of_int_less_iff)
  qed
  show ?thesis
    unfolding rne_def Let_def fl fr lt gt by (rule refl)
qed

lemma rne_numeral_div [simp]:
  "rne (numeral a / numeral b) =
    (if 2 * ((numeral a :: int) mod numeral b) < numeral b then numeral a div numeral b
     else if (numeral b :: int) < 2 * (numeral a mod numeral b) then numeral a div numeral b + 1
     else if even (numeral a div numeral b :: int) then numeral a div numeral b
     else numeral a div numeral b + 1)"
  using rne_div [of "numeral b" "numeral a"] by simp

lemma rne_numeral [simp]: "rne (numeral a) = numeral a"
  using rne_of_int [of "numeral a"] by simp

lemma rne_neg [simp]: "rne (- numeral a) = - numeral a"
  "rne (- (numeral a / numeral b)) = - rne (numeral a / numeral b)"
  using rne_of_int [of "- numeral a"] by (simp_all add: rne_minus)

lemma floor_rat_numeral [simp]:
  "\<lfloor>(numeral a :: rat) / numeral b\<rfloor> = numeral a div numeral b"
  using floor_divide_of_int_eq [of "numeral a" "numeral b", where ?'a = rat] by simp

lemmas round64_at =
  round64_normal [where e = "- 7"] round64_normal [where e = "- 6"]
  round64_normal [where e = "- 5"] round64_normal [where e = "- 4"]
  round64_normal [where e = "- 3"] round64_normal [where e = "- 2"]
  round64_normal [where e = "- 1"] round64_normal [where e = "0"]
  round64_normal [where e = "1"] round64_normal [where e = "2"]
  round64_normal [where e = "3"] round64_normal [where e = "4"]
  round64_normal [where e = "5"] round64_normal [where e = "6"]

section \<open>The counters of a reading session\<close>

lemma timeDelta_val: "timeDelta = 3602879701896397 / 36028797018963968"
  by (simp add: timeDelta_def UPDATE_INTERVAL_MS_def fdiv_def round64_at)

lemma TREE_CYCLE_SECONDS_val: "TREE_CYCLE_SECONDS = 10"
  by (simp add: TREE_CYCLE_SECONDS_def MAX_TREE_HEIGHT_def POINTS_PER_SECOND_def fdiv_def)

lemma timeDelta_nonneg: "0 \<le> timeDelta"
  by (simp add: timeDelta_val)

lemma accumulate_double: "round64 (accumulate n) = accumulate n"
  by (cases n) (simp_all add: fadd_def round64_idem)

lemma accumulate_nonneg: "0 \<le> accumulate n"
  by (induction n) (simp_all add: fadd_def round64_nonneg timeDelta_nonneg)

lemma accumulate_Suc_ge: "accumulate n \<le> accumulate (Suc n)"
proof -
  have "accumulate n \<le> accumulate n + timeDelta" using timeDelta_nonneg by simp
  with accumulate_nonneg accumulate_double have "accumulate n \<le> round64 (accumulate n + timeDelta)"
    by (rule round64_ge)
  then show ?thesis by (simp add: fadd_def)
qed

lemma accumulate_numeral: "accumulate (numeral k) = fadd (accumulate (pred_numeral k)) timeDelta"
  by (simp add: numeral_eq_Suc)

lemma accumulate_1: "accumulate 1 = 3602879701896397 / 36028797018963968"
  using accumulate.simps(2) [of 0] by (simp add: timeDelta_val fadd_def round64_at)

lemma accumulate_2: "accumulate 2 = 3602879701896397 / 18014398509481984"
  by (simp add: accumulate_numeral accumulate_1 timeDelta_val fadd_def round64_at)

lemma accumulate_4: "accumulate 4 = 3602879701896397 / 9007199254740992"
  by (simp add: accumulate_numeral accumulate_2 timeDelta_val fadd_def round64_at)

lemma accumulate_6: "accumulate 6 = 5404319552844595 / 9007199254740992"
  by (simp add: accumulate_numeral accumulate_4 timeDelta_val fadd_def round64_at)



lemma tickWith_reading:
  assumes "appState s = READING"
  shows "appState (tickWith alpha x n s) = READING"
    and "noiseFloor (tickWith alpha x n s) = noiseFloor s"
    and "audioService (tickWith alpha x n s) = audioService s"
    and "permissionError (tickWith alpha x n s) = permissionError s"
    and "calibrationStartTime (tickWith alpha x n s) = calibrationStartTime s"
  using assms by (simp_all add: tickWith_def Let_def)

lemma tickWith_reading_stats:
  assumes "appState s = READING"
  shows "stats (tickWith alpha x n s) =
    (case verdict s (x, n) of
       Loud \<Rightarrow> (stats s)\<lparr>duration := fadd (duration (stats s)) timeDelta,
                           tooLoudDuration := fadd (tooLoudDuration (stats s)) timeDelta\<rparr>
     | Good \<Rightarrow> (stats s)\<lparr>duration := fadd (duration (stats s)) timeDelta,
                           validDuration := fadd (validDuration (stats s)) timeDelta,
                           treesPlanted := Math_floor (fdiv (fadd (validDuration (stats s)) timeDelta)
                                                        TREE_CYCLE_SECONDS)\<rparr>
     | _ \<Rightarrow> (stats s)\<lparr>duration := fadd (duration (stats s)) timeDelta\<rparr>)"
  using assms by (simp add: tickWith_def Let_def verdict_def getVolumeStatus_def timeDelta_def)

lemma verdict_reading:
  assumes "appState s = READING"
  shows "verdict s t = Loud \<or> verdict s t = Good \<or> verdict s t = Quiet"
  using assms by (simp add: verdict_def getVolumeStatus_def)

lemma verdict_cong:
  assumes "appState s' = appState s" and "noiseFloor s' = noiseFloor s"
    and "audioService s' = audioService s"
  shows "verdict s' = verdict s"
  using assms by (simp add: verdict_def getVolumeStatus_def targetDb_def fun_eq_iff)

lemma runWith_append: "runWith alpha s (es @ fs) = runWith alpha (runWith alpha s es) fs"
  by (induction es arbitrary: s) simp_all

lemma runTicks_Nil: "runTicks s [] = s"
  by (simp add: runTicks_def run_def)

lemma runTicks_snoc:
  "runTicks s (ts @ [t]) =
     (if timerArmed (runTicks s ts) then tick (fst t) (snd t) (runTicks s ts) else runTicks s ts)"
  by (cases t) (simp add: runTicks_def run_def runWith_append stepWith_def tick_def)

lemma runTicks_Cons:
  "runTicks s (t # ts) = runTicks (if timerArmed s then tick (fst t) (snd t) s else s) ts"
  by (cases t) (simp add: runTicks_def run_def stepWith_def tick_def)

lemma reading_run:
  assumes r: "appState s0 = READING" and z: "stats s0 = zeroStats"
  shows "appState (runTicks s0 ts) = READING \<and>
    noiseFloor (runTicks s0 ts) = noiseFloor s0 \<and>
    audioService (runTicks s0 ts) = audioService s0 \<and>
    duration (stats (runTicks s0 ts)) = accumulate (length ts) \<and>
    validDuration (stats (runTicks s0 ts)) =
      accumulate (length (filter (\<lambda>t. verdict s0 t = Good) ts)) \<and>
    tooLoudDuration (stats (runTicks s0 ts)) =
      accumulate (length (filter (\<lambda>t. verdict s0 t = Loud) ts)) \<and>
    treesPlanted (stats (runTicks s0 ts)) =
      Math_floor (fdiv (validDuration (stats (runTicks s0 ts))) TREE_CYCLE_SECONDS)"
proof (induction ts rule: rev_induct)
  case Nil
  show ?case
    using r z by (simp add: runTicks_Nil zeroStats_def Math_floor_def fdiv_def)
next
  case (snoc t ts)
  define s where "s = runTicks s0 ts"
  from snoc have rs: "appState s = READING" and nf: "noiseFloor s = noiseFloor s0"
    and au: "audioService s = audioService s0"
    and d: "duration (stats s) = accumulate (length ts)"
    and v: "validDuration (stats s) = accumulate (length (filter (\<lambda>t. verdict s0 t = Good) ts))"
    and l: "tooLoudDuration (stats s) = accumulate (length (filter (\<lambda>t. verdict s0 t = Loud) ts))"
    and tp: "treesPlanted (stats s) = Math_floor (fdiv (validDuration (stats s)) TREE_CYCLE_SECONDS)"
    by (simp_all add: s_def)
  have vd: "verdict s = verdict s0" using rs r nf au by (intro verdict_cong) simp_all
  have nx: "runTicks s0 (ts @ [t]) = tick (fst t) (snd t) s"
    using rs by (simp add: runTicks_snoc s_def timerArmed_def)
  have st: "stats (tick (fst t) (snd t) s) =
    (case verdict s0 t of
       Loud \<Rightarrow> (stats s)\<lparr>duration := fadd (duration (stats s)) timeDelta,
                           tooLoudDuration := fadd (tooLoudDuration (stats s)) timeDelta\<rparr>
     | Good \<Rightarrow> (stats s)\<lparr>duration := fadd (duration (stats s)) timeDelta,
                           validDuration := fadd (validDuration (stats s)) timeDelta,
                           treesPlanted := Math_floor (fdiv (fadd (validDuration (stats s)) timeDelta)
                                                        TREE_CYCLE_SECONDS)\<rparr>
     | _ \<Rightarrow> (stats s)\<lparr>duration := fadd (duration (stats s)) timeDelta\<rparr>)"
    using tickWith_reading_stats [OF rs, of EMA_ALPHA "fst t" "snd t"] by (simp add: tick_def vd)
  from verdict_reading [OF r, of t] show ?case
    unfolding nx st
    using tickWith_reading(1-3) [OF rs, of EMA_ALPHA "fst t" "snd t"] nf au d v l tp
    by (auto simp: tick_def)
qed

lemma filter_verdict_partition:
  assumes "appState s0 = READING"
  shows "length ts = length (filter (\<lambda>t. verdict s0 t = Good) ts) +
    length (filter (\<lambda>t. verdict s0 t = Loud) ts) +
    length (filter (\<lambda>t. verdict s0 t = Quiet) ts)"
proof (induction ts)
  case Nil
  show ?case by simp
next
  case (Cons t ts)
  with verdict_reading [OF assms, of t] show ?case by auto
qed

lemma reading_run_mono:
  assumes r: "appState s0 = READING" and z: "stats s0 = zeroStats"
  shows "duration (stats (runTicks s0 ts)) \<le> duration (stats (runTicks s0 (ts @ [t]))) \<and>
    validDuration (stats (runTicks s0 ts)) \<le> validDuration (stats (runTicks s0 (ts @ [t]))) \<and>
    tooLoudDuration (stats (runTicks s0 ts)) \<le> tooLoudDuration (stats (runTicks s0 (ts @ [t])))"
proof -
  note a = reading_run [OF r z, of ts] and b = reading_run [OF r z, of "ts @ [t]"]
  from verdict_reading [OF r, of t] show ?thesis
    using a b accumulate_Suc_ge by auto
qed

lemma freshReading_simps:
  "appState freshReading = READING"
  "stats freshReading = zeroStats"
  "noiseFloor freshReading = - 60"
  "audioService freshReading =
     \<lparr>audioContext = True, analyser = True, microphone = True, dataArray = True, stream = True\<rparr>"
  by (simp_all add: freshReading_def handleStartReading_def initialApp_def start_def
      DEFAULT_NOISE_FLOOR_DB_def Let_def)

lemma verdict_freshReading:
  "verdict freshReading (- 40, n) = Good"
  "verdict freshReading (- 10, n) = Loud"
  "verdict freshReading (- 70, n) = Quiet"
  by (simp_all add: verdict_def getVolumeStatus_def getMetrics_def freshReading_simps targetDb_def
      MIN_DECIBELS_def SCREAM_THRESHOLD_DB_def TARGET_DB_OFFSET_def fadd_def)

lemma C1_cex_aux:
  "duration (stats (runTicks freshReading fourGoodTwoLoud)) = 5404319552844595 / 9007199254740992"
  "validDuration (stats (runTicks freshReading fourGoodTwoLoud)) = 3602879701896397 / 9007199254740992"
  "tooLoudDuration (stats (runTicks freshReading fourGoodTwoLoud)) = 3602879701896397 / 18014398509481984"
proof -
  have l6: "length fourGoodTwoLoud = 6"
    by (simp add: fourGoodTwoLoud_def)
  have l4: "length (filter (\<lambda>t. verdict freshReading t = Good) fourGoodTwoLoud) = 4"
    by (simp add: fourGoodTwoLoud_def verdict_freshReading)
  have l2: "length (filter (\<lambda>t. verdict freshReading t = Loud) fourGoodTwoLoud) = 2"
    by (simp add: fourGoodTwoLoud_def verdict_freshReading)
  note r = reading_run [OF freshReading_simps(1,2), of fourGoodTwoLoud, unfolded l6 l4 l2
      accumulate_6 accumulate_4 accumulate_2]
  from r show "duration (stats (runTicks freshReading fourGoodTwoLoud)) = 5404319552844595 / 9007199254740992"
    by blast
  from r show "validDuration (stats (runTicks freshReading fourGoodTwoLoud)) = 3602879701896397 / 9007199254740992"
    by blast
  from r show "tooLoudDuration (stats (runTicks freshReading fourGoodTwoLoud)) = 3602879701896397 / 18014398509481984"
    by blast
qed

lemma accumulate_3: "accumulate 3 = 1351079888211149 / 4503599627370496"
  by (simp add: accumulate_numeral accumulate_2 timeDelta_val fadd_def round64_at)

subsection \<open>The counters in every state the component reaches\<close>

lemma run_snoc: "run s (evs @ [e]) = step (run s evs) e"
  by (simp add: run_def step_def runWith_append)

lemma step_stats_cases:
  "stats (step s e) = stats s \<or> stats (step s e) = zeroStats \<or>
   (appState s = READING \<and> (\<exists>x t. e = Tick x t \<and> stats (step s e) = stats (tick x t s)))"
  by (cases e)
    (auto simp: step_def stepWith_def tick_def tickWith_def timerArmed_def Let_def zeroStats_def
      handleStartCalibration_def handleStartReading_def handleStop_def handleReset_def
      handleContinue_def split: prod.splits sum.splits)

lemma reachable_counters:
  "\<exists>n g l. g + l \<le> n \<and>
     duration (stats (run initialApp evs)) = accumulate n \<and>
     validDuration (stats (run initialApp evs)) = accumulate g \<and>
     tooLoudDuration (stats (run initialApp evs)) = accumulate l \<and>
     treesPlanted (stats (run initialApp evs)) =
       Math_floor (fdiv (validDuration (stats (run initialApp evs))) TREE_CYCLE_SECONDS)"
proof (induction evs rule: rev_induct)
  case Nil
  have "0 + 0 \<le> (0::nat) \<and>
     duration (stats (run initialApp [])) = accumulate 0 \<and>
     validDuration (stats (run initialApp [])) = accumulate 0 \<and>
     tooLoudDuration (stats (run initialApp [])) = accumulate 0 \<and>
     treesPlanted (stats (run initialApp [])) =
       Math_floor (fdiv (validDuration (stats (run initialApp []))) TREE_CYCLE_SECONDS)"
    by (simp add: run_def initialApp_def zeroStats_def Math_floor_def fdiv_def)
  then show ?case by blast
next
  case (snoc e evs)
  define s where "s = run initialApp evs"
  from snoc obtain n g l where gl: "g + l \<le> n"
    and d: "duration (stats s) = accumulate n"
    and v: "validDuration (stats s) = accumulate g"
    and t: "tooLoudDuration (stats s) = accumulate l"
    and tp: "treesPlanted (stats s) = Math_floor (fdiv (validDuration (stats s)) TREE_CYCLE_SECONDS)"
    unfolding s_def by blast
  have nx: "run initialApp (evs @ [e]) = step s e" by (simp add: run_snoc s_def)
  from step_stats_cases [of s e] show ?case
  proof (elim disjE conjE exE)
    assume "stats (step s e) = stats s"
    with gl d v t tp show ?thesis unfolding nx by metis
  next
    assume z: "stats (step s e) = zeroStats"
    have "0 + 0 \<le> (0::nat) \<and>
       duration (stats (step s e)) = accumulate 0 \<and>
       validDuration (stats (step s e)) = accumulate 0 \<and>
       tooLoudDuration (stats (step s e)) = accumulate 0 \<and>
       treesPlanted (stats (step s e)) =
         Math_floor (fdiv (validDuration (stats (step s e))) TREE_CYCLE_SECONDS)"
      unfolding z by (simp add: zeroStats_def Math_floor_def fdiv_def)
    then show ?thesis unfolding nx by blast
  next
    fix x tm
    assume r: "appState s = READING" and e: "e = Tick x tm"
      and st: "stats (step s e) = stats (tick x tm s)"
    note u = tickWith_reading_stats [OF r, of EMA_ALPHA x tm, folded tick_def]
    from verdict_reading [OF r, of "(x, tm)"]
    have "\<exists>n' g' l'. g' + l' \<le> n' \<and>
       duration (stats (tick x tm s)) = accumulate n' \<and>
       validDuration (stats (tick x tm s)) = accumulate g' \<and>
       tooLoudDuration (stats (tick x tm s)) = accumulate l' \<and>
       treesPlanted (stats (tick x tm s)) =
         Math_floor (fdiv (validDuration (stats (tick x tm s))) TREE_CYCLE_SECONDS)"
    proof (elim disjE)
      assume "verdict s (x, tm) = Loud"
      with u gl d v t tp have "g + Suc l \<le> Suc n \<and>
       duration (stats (tick x tm s)) = accumulate (Suc n) \<and>
       validDuration (stats (tick x tm s)) = accumulate g \<and>
       tooLoudDuration (stats (tick x tm s)) = accumulate (Suc l) \<and>
       treesPlanted (stats (tick x tm s)) =
         Math_floor (fdiv (validDuration (stats (tick x tm s))) TREE_CYCLE_SECONDS)"
        by simp
      then show ?thesis by blast
    next
      assume "verdict s (x, tm) = Good"
      with u gl d v t tp have "Suc g + l \<le> Suc n \<and>
       duration (stats (tick x tm s)) = accumulate (Suc n) \<and>
       validDuration (stats (tick x tm s)) = accumulate (Suc g) \<and>
       tooLoudDuration (stats (tick x tm s)) = accumulate l \<and>
       treesPlanted (stats (tick x tm s)) =
         Math_floor (fdiv (validDuration (stats (tick x tm s))) TREE_CYCLE_SECONDS)"
        by simp
      then show ?thesis by blast
    next
      assume "verdict s (x, tm) = Quiet"
      with u gl d v t tp have "g + l \<le> Suc n \<and>
       duration (stats (tick x tm s)) = accumulate (Suc n) \<and>
       validDuration (stats (tick x tm s)) = accumulate g \<and>
       tooLoudDuration (stats (tick x tm s)) = accumulate l \<and>
       treesPlanted (stats (tick x tm s)) =
         Math_floor (fdiv (validDuration (stats (tick x tm s))) TREE_CYCLE_SECONDS)"
        by simp
      then show ?thesis by blast
    qed
    then show ?thesis unfolding nx st .
  qed
qed

lemma reachable_tick_mono:
  "duration (stats (run initialApp evs)) \<le> duration (stats (step (run initialApp evs) (Tick x tm))) \<and>
   validDuration (stats (run initialApp evs))
     \<le> validDuration (stats (step (run initialApp evs) (Tick x tm))) \<and>
   tooLoudDuration (stats (run initialApp evs))
     \<le> tooLoudDuration (stats (step (run initialApp evs) (Tick x tm)))"
proof -
  define s where "s = run initialApp evs"
  from reachable_counters [of evs] obtain n g l where
    d: "duration (stats s) = accumulate n"
    and v: "validDuration (stats s) = accumulate g"
    and t: "tooLoudDuration (stats s) = accumulate l"
    unfolding s_def by blast
  from step_stats_cases [of s "Tick x tm"]
  have "duration (stats s) \<le> duration (stats (step s (Tick x tm))) \<and>
   validDuration (stats s) \<le> validDuration (stats (step s (Tick x tm))) \<and>
   tooLoudDuration (stats s) \<le> tooLoudDuration (stats (step s (Tick x tm)))"
  proof (elim disjE conjE exE)
    assume "stats (step s (Tick x tm)) = stats s"
    then show ?thesis by simp
  next
    assume z: "stats (step s (Tick x tm)) = zeroStats"
    have "stats (step s (Tick x tm)) = stats s \<or> appState s = READING"
      by (auto simp: step_def stepWith_def timerArmed_def tickWith_def Let_def)
    then show ?thesis
    proof
      assume "stats (step s (Tick x tm)) = stats s"
      then show ?thesis by simp
    next
      assume r: "appState s = READING"
      note u = tickWith_reading_stats [OF r, of EMA_ALPHA x tm, folded tick_def]
      have "stats (step s (Tick x tm)) = stats (tick x tm s)"
        using r by (simp add: step_def stepWith_def timerArmed_def tick_def)
      with verdict_reading [OF r, of "(x, tm)"] u d v t
        accumulate_Suc_ge [of n] accumulate_Suc_ge [of g] accumulate_Suc_ge [of l]
      show ?thesis by auto
    qed
  next
    fix y ty
    assume r: "appState s = READING" and "Tick x tm = Tick y ty"
      and st: "stats (step s (Tick x tm)) = stats (tick y ty s)"
    then have st': "stats (step s (Tick x tm)) = stats (tick x tm s)" by simp
    note u = tickWith_reading_stats [OF r, of EMA_ALPHA x tm, folded tick_def]
    from verdict_reading [OF r, of "(x, tm)"] u d v t st'
      accumulate_Suc_ge [of n] accumulate_Suc_ge [of g] accumulate_Suc_ge [of l]
    show ?thesis by auto
  qed
  then show ?thesis unfolding s_def .
qed

section \<open>The properties of the session engine\<close>

subsection \<open>C1: the counters of a reading session\<close>

text \<open>
  Claim C1, as the code has it. In a reading session that started from zeroed
  statistics, after any sequence of ticks each counter is the tick period added up, in
  binary64 arithmetic, once for each tick of its class: \<open>duration\<close> for every tick,
  \<open>validDuration\<close> for the ticks classified good, \<open>tooLoudDuration\<close> for the
  ticks classified loud; every tick is good, loud or quiet. \<open>treesPlanted\<close> is the
  floor of \<open>validDuration / TREE_CYCLE_SECONDS\<close> computed from the stored value, and
  no counter decreases at the next tick. The same holds in every state that \<open>run\<close>
  reaches from the first render, each handler running to its end before the next event:
  the counters are such sums, \<open>treesPlanted\<close> is that floor, and a tick decreases no
  counter.
\<close>

theorem C1_counters_by_tick_class:
  assumes "appState s0 = READING" and "stats s0 = zeroStats"
  shows "duration (stats (runTicks s0 ts)) = accumulate (length ts) \<and>
    validDuration (stats (runTicks s0 ts)) =
      accumulate (length (filter (\<lambda>t. verdict s0 t = Good) ts)) \<and>
    tooLoudDuration (stats (runTicks s0 ts)) =
      accumulate (length (filter (\<lambda>t. verdict s0 t = Loud) ts)) \<and>
    length ts = length (filter (\<lambda>t. verdict s0 t = Good) ts) +
      length (filter (\<lambda>t. verdict s0 t = Loud) ts) +
      length (filter (\<lambda>t. verdict s0 t = Quiet) ts) \<and>
    treesPlanted (stats (runTicks s0 ts)) =
      Math_floor (fdiv (validDuration (stats (runTicks s0 ts))) TREE_CYCLE_SECONDS) \<and>
    (\<forall>t. duration (stats (runTicks s0 ts)) \<le> duration (stats (runTicks s0 (ts @ [t]))) \<and>
      validDuration (stats (runTicks s0 ts)) \<le> validDuration (stats (runTicks s0 (ts @ [t]))) \<and>
      tooLoudDuration (stats (runTicks s0 ts))
        \<le> tooLoudDuration (stats (runTicks s0 (ts @ [t])))) \<and>
    (\<exists>n g l. g + l \<le> n \<and>
       duration (stats (run initialApp evs)) = accumulate n \<and>
       validDuration (stats (run initialApp evs)) = accumulate g \<and>
       tooLoudDuration (stats (run initialApp evs)) = accumulate l) \<and>
    treesPlanted (stats (run initialApp evs)) =
      Math_floor (fdiv (validDuration (stats (run initialApp evs))) TREE_CYCLE_SECONDS) \<and>
    duration (stats (run initialApp evs))
      \<le> duration (stats (step (run initialApp evs) (Tick x tm))) \<and>
    validDuration (stats (run initialApp evs))
      \<le> validDuration (stats (step (run initialApp evs) (Tick x tm))) \<and>
    tooLoudDuration (stats (run initialApp evs))
      \<le> tooLoudDuration (stats (step (run initialApp evs) (Tick x tm)))"
proof -
  from reachable_counters [of evs] have "(\<exists>n g l. g + l \<le> n \<and>
       duration (stats (run initialApp evs)) = accumulate n \<and>
       validDuration (stats (run initialApp evs)) = accumulate g \<and>
       tooLoudDuration (stats (run initialApp evs)) = accumulate l) \<and>
    treesPlanted (stats (run initialApp evs)) =
      Math_floor (fdiv (validDuration (stats (run initialApp evs))) TREE_CYCLE_SECONDS)"
    by blast
  with reading_run [OF assms, of ts] filter_verdict_partition [OF assms(1), of ts]
    reading_run_mono [OF assms, of ts] reachable_tick_mono [of evs x tm]
  show ?thesis by blast
qed

text \<open>The theorem at a session of three ticks: one good, one loud, one quiet.\<close>

theorem C1_counters_by_tick_class_witness:
  "appState freshReading = READING \<and> stats freshReading = zeroStats \<and>
   duration (stats (runTicks freshReading goodLoudQuiet)) = 1351079888211149 / 4503599627370496 \<and>
   validDuration (stats (runTicks freshReading goodLoudQuiet))
     = 3602879701896397 / 36028797018963968 \<and>
   tooLoudDuration (stats (runTicks freshReading goodLoudQuiet))
     = 3602879701896397 / 36028797018963968 \<and>
   treesPlanted (stats (runTicks freshReading goodLoudQuiet)) = 0"
proof -
  have l3: "length goodLoudQuiet = 3"
    by (simp add: goodLoudQuiet_def)
  have lg: "length (filter (\<lambda>t. verdict freshReading t = Good) goodLoudQuiet) = 1"
    by (simp add: goodLoudQuiet_def verdict_freshReading)
  have ll: "length (filter (\<lambda>t. verdict freshReading t = Loud) goodLoudQuiet) = 1"
    by (simp add: goodLoudQuiet_def verdict_freshReading)
  have fl: "Math_floor (fdiv (3602879701896397 / 36028797018963968) TREE_CYCLE_SECONDS) = 0"
    by (simp add: Math_floor_def fdiv_def TREE_CYCLE_SECONDS_val round64_at)
  note r = C1_counters_by_tick_class [OF freshReading_simps(1,2), of goodLoudQuiet,
      unfolded l3 lg ll accumulate_3 accumulate_1]
  from r have d: "duration (stats (runTicks freshReading goodLoudQuiet))
      = 1351079888211149 / 4503599627370496"
    by blast
  from r have v: "validDuration (stats (runTicks freshReading goodLoudQuiet))
      = 3602879701896397 / 36028797018963968"
    by blast
  from r have l: "tooLoudDuration (stats (runTicks freshReading goodLoudQuiet))
      = 3602879701896397 / 36028797018963968"
    by blast
  from r have "treesPlanted (stats (runTicks freshReading goodLoudQuiet)) =
      Math_floor (fdiv (validDuration (stats (runTicks freshReading goodLoudQuiet)))
        TREE_CYCLE_SECONDS)"
    by blast
  then have tp: "treesPlanted (stats (runTicks freshReading goodLoudQuiet)) = 0"
    unfolding v fl .
  from freshReading_simps(1,2) d v l tp show ?thesis by blast
qed

text \<open>
  Claim C1 as stated does not hold: after four good ticks and two loud ones, the
  stored \<open>duration\<close> differs from \<open>validDuration + tooLoudDuration +
  (duration - validDuration - tooLoudDuration)\<close> evaluated with the operators of the
  program; and although no tick was quiet, \<open>duration\<close> is smaller than the exact sum
  of the other two counters, so that the derived too-quiet time is negative.
\<close>

theorem C1_sum_identity_counterexample:
  "fadd (fadd (validDuration (stats (runTicks freshReading fourGoodTwoLoud)))
              (tooLoudDuration (stats (runTicks freshReading fourGoodTwoLoud))))
        (fsub (fsub (duration (stats (runTicks freshReading fourGoodTwoLoud)))
                    (validDuration (stats (runTicks freshReading fourGoodTwoLoud))))
              (tooLoudDuration (stats (runTicks freshReading fourGoodTwoLoud))))
     \<noteq> duration (stats (runTicks freshReading fourGoodTwoLoud)) \<and>
   filter (\<lambda>t. verdict freshReading t = Quiet) fourGoodTwoLoud = [] \<and>
   duration (stats (runTicks freshReading fourGoodTwoLoud))
     < validDuration (stats (runTicks freshReading fourGoodTwoLoud))
       + tooLoudDuration (stats (runTicks freshReading fourGoodTwoLoud))"
proof -
  have q: "fsub (fsub (5404319552844595 / 9007199254740992) (3602879701896397 / 9007199254740992))
      (3602879701896397 / 18014398509481984) = - (1 / 18014398509481984)"
    by (simp add: fsub_def round64_at round64_normal [where e = "- 54"])
  have vl: "fadd (3602879701896397 / 9007199254740992) (3602879701896397 / 18014398509481984)
      = 5404319552844596 / 9007199254740992"
    by (simp add: fadd_def round64_at)
  have sm: "fadd (5404319552844596 / 9007199254740992) (- (1 / 18014398509481984))
      = 5404319552844596 / 9007199254740992"
    by (simp add: fadd_def round64_at)
  have nq: "filter (\<lambda>t. verdict freshReading t = Quiet) fourGoodTwoLoud = []"
    by (simp add: fourGoodTwoLoud_def verdict_freshReading)
  show ?thesis
    unfolding C1_cex_aux q vl sm nq by simp
qed

subsection \<open>C2: the classification of a level\<close>

lemma tick_reading_by_comparison:
  assumes "appState s = READING"
  shows "(getMetrics (audioService s) sensed > SCREAM_THRESHOLD_DB \<longrightarrow>
       stats (tick sensed now s) =
         (stats s)\<lparr>duration := fadd (duration (stats s)) timeDelta,
                   tooLoudDuration := fadd (tooLoudDuration (stats s)) timeDelta\<rparr>) \<and>
    (getMetrics (audioService s) sensed \<le> SCREAM_THRESHOLD_DB \<and>
     getMetrics (audioService s) sensed \<ge> fadd (noiseFloor s) TARGET_DB_OFFSET \<longrightarrow>
       stats (tick sensed now s) =
         (stats s)\<lparr>duration := fadd (duration (stats s)) timeDelta,
                   validDuration := fadd (validDuration (stats s)) timeDelta,
                   treesPlanted :=
                     Math_floor (fdiv (fadd (validDuration (stats s)) timeDelta)
                       TREE_CYCLE_SECONDS)\<rparr>) \<and>
    (getMetrics (audioService s) sensed \<le> SCREAM_THRESHOLD_DB \<and>
     getMetrics (audioService s) sensed < fadd (noiseFloor s) TARGET_DB_OFFSET \<longrightarrow>
       stats (tick sensed now s) =
         (stats s)\<lparr>duration := fadd (duration (stats s)) timeDelta\<rparr>)"
  using assms by (auto simp: tick_def tickWith_def Let_def targetDb_def timeDelta_def)

lemma first_delta: "fadd 0 timeDelta \<noteq> 0"
  using accumulate.simps(2) [of 0] accumulate_1 by simp

lemma tick_zero_by_comparison:
  assumes "appState s = READING" and "stats s = zeroStats"
  shows "(tooLoudDuration (stats (tick sensed now s)) \<noteq> 0 \<longleftrightarrow>
       getMetrics (audioService s) sensed > SCREAM_THRESHOLD_DB) \<and>
    (validDuration (stats (tick sensed now s)) \<noteq> 0 \<longleftrightarrow>
       getMetrics (audioService s) sensed \<le> SCREAM_THRESHOLD_DB \<and>
       getMetrics (audioService s) sensed \<ge> fadd (noiseFloor s) TARGET_DB_OFFSET)"
  using assms first_delta
  by (auto simp: tick_def tickWith_def Let_def targetDb_def timeDelta_def zeroStats_def)

text \<open>
  Claim C2. While reading, a level is classified as exactly one of loud, good and
  quiet: loud when it is strictly above the scream threshold, good when it is at most
  the scream threshold and at least the target (the noise floor plus the offset), quiet
  otherwise. A level equal to the scream threshold is not loud, a level equal to the
  target is good. This is so for the status shown by the meter and for the game loop:
  a tick whose level is in the loud region makes the loud update of the statistics, one
  whose level is in the good region the good update, one whose level is in the quiet
  region the quiet update; from zeroed statistics, \<open>tooLoudDuration\<close> becomes non-zero
  exactly in the loud region and \<open>validDuration\<close> exactly in the good region.
\<close>

theorem C2_classifier_partition:
  assumes "appState s = READING"
  shows "(getVolumeStatus s db = Loud \<or> getVolumeStatus s db = Good \<or> getVolumeStatus s db = Quiet) \<and>
    (getVolumeStatus s db = Loud \<longleftrightarrow> db > SCREAM_THRESHOLD_DB) \<and>
    (getVolumeStatus s db = Good \<longleftrightarrow>
       db \<le> SCREAM_THRESHOLD_DB \<and> db \<ge> fadd (noiseFloor s) TARGET_DB_OFFSET) \<and>
    (getVolumeStatus s db = Quiet \<longleftrightarrow>
       db \<le> SCREAM_THRESHOLD_DB \<and> db < fadd (noiseFloor s) TARGET_DB_OFFSET) \<and>
    getVolumeStatus s SCREAM_THRESHOLD_DB \<noteq> Loud \<and>
    (fadd (noiseFloor s) TARGET_DB_OFFSET \<le> SCREAM_THRESHOLD_DB \<longrightarrow>
       getVolumeStatus s (fadd (noiseFloor s) TARGET_DB_OFFSET) = Good) \<and>
    verdict s (sensed, now) = getVolumeStatus s (getMetrics (audioService s) sensed) \<and>
    (getMetrics (audioService s) sensed > SCREAM_THRESHOLD_DB \<longrightarrow>
       stats (tick sensed now s) =
         (stats s)\<lparr>duration := fadd (duration (stats s)) timeDelta,
                   tooLoudDuration := fadd (tooLoudDuration (stats s)) timeDelta\<rparr>) \<and>
    (getMetrics (audioService s) sensed \<le> SCREAM_THRESHOLD_DB \<and>
     getMetrics (audioService s) sensed \<ge> fadd (noiseFloor s) TARGET_DB_OFFSET \<longrightarrow>
       stats (tick sensed now s) =
         (stats s)\<lparr>duration := fadd (duration (stats s)) timeDelta,
                   validDuration := fadd (validDuration (stats s)) timeDelta,
                   treesPlanted :=
                     Math_floor (fdiv (fadd (validDuration (stats s)) timeDelta)
                       TREE_CYCLE_SECONDS)\<rparr>) \<and>
    (getMetrics (audioService s) sensed \<le> SCREAM_THRESHOLD_DB \<and>
     getMetrics (audioService s) sensed < fadd (noiseFloor s) TARGET_DB_OFFSET \<longrightarrow>
       stats (tick sensed now s) =
         (stats s)\<lparr>duration := fadd (duration (stats s)) timeDelta\<rparr>) \<and>
    (stats s = zeroStats \<longrightarrow>
       (tooLoudDuration (stats (tick sensed now s)) \<noteq> 0 \<longleftrightarrow>
          getMetrics (audioService s) sensed > SCREAM_THRESHOLD_DB) \<and>
       (validDuration (stats (tick sensed now s)) \<noteq> 0 \<longleftrightarrow>
          getMetrics (audioService s) sensed \<le> SCREAM_THRESHOLD_DB \<and>
          getMetrics (audioService s) sensed \<ge> fadd (noiseFloor s) TARGET_DB_OFFSET))"
proof -
  have g: "(getVolumeStatus s db = Loud \<or> getVolumeStatus s db = Good \<or> getVolumeStatus s db = Quiet) \<and>
    (getVolumeStatus s db = Loud \<longleftrightarrow> db > SCREAM_THRESHOLD_DB) \<and>
    (getVolumeStatus s db = Good \<longleftrightarrow>
       db \<le> SCREAM_THRESHOLD_DB \<and> db \<ge> fadd (noiseFloor s) TARGET_DB_OFFSET) \<and>
    (getVolumeStatus s db = Quiet \<longleftrightarrow>
       db \<le> SCREAM_THRESHOLD_DB \<and> db < fadd (noiseFloor s) TARGET_DB_OFFSET) \<and>
    getVolumeStatus s SCREAM_THRESHOLD_DB \<noteq> Loud \<and>
    (fadd (noiseFloor s) TARGET_DB_OFFSET \<le> SCREAM_THRESHOLD_DB \<longrightarrow>
       getVolumeStatus s (fadd (noiseFloor s) TARGET_DB_OFFSET) = Good) \<and>
    verdict s (sensed, now) = getVolumeStatus s (getMetrics (audioService s) sensed)"
    using assms by (auto simp: getVolumeStatus_def targetDb_def verdict_def)
  from g tick_reading_by_comparison [OF assms, of sensed now]
    tick_zero_by_comparison [OF assms, of sensed now]
  show ?thesis by blast
qed

text \<open>
  The theorem at a fresh reading session, whose noise floor is \<open>- 60\<close> and whose target
  is \<open>- 50\<close>: the levels \<open>- 50\<close> and \<open>- 15\<close> are good, for the meter and for the
  tick, \<open>- 10\<close> is loud and \<open>- 51\<close> is quiet.
\<close>

theorem C2_classifier_partition_witness:
  "appState freshReading = READING \<and>
   fadd (noiseFloor freshReading) TARGET_DB_OFFSET = - 50 \<and>
   getVolumeStatus freshReading (- 50) = Good \<and>
   getVolumeStatus freshReading (- 15) = Good \<and>
   getVolumeStatus freshReading (- 15) \<noteq> Loud \<and>
   getVolumeStatus freshReading (- 10) = Loud \<and>
   getVolumeStatus freshReading (- 51) = Quiet \<and>
   stats freshReading = zeroStats \<and>
   validDuration (stats (tick (- 50) 0 freshReading)) \<noteq> 0 \<and>
   tooLoudDuration (stats (tick (- 50) 0 freshReading)) = 0 \<and>
   validDuration (stats (tick (- 15) 0 freshReading)) \<noteq> 0 \<and>
   tooLoudDuration (stats (tick (- 15) 0 freshReading)) = 0 \<and>
   validDuration (stats (tick (- 10) 0 freshReading)) = 0 \<and>
   tooLoudDuration (stats (tick (- 10) 0 freshReading)) \<noteq> 0 \<and>
   validDuration (stats (tick (- 51) 0 freshReading)) = 0 \<and>
   tooLoudDuration (stats (tick (- 51) 0 freshReading)) = 0"
proof -
  have t: "fadd (noiseFloor freshReading) TARGET_DB_OFFSET = - 50"
    by (simp add: freshReading_simps TARGET_DB_OFFSET_def fadd_def)
  have m: "getMetrics (audioService freshReading) (- 50) = - 50"
    "getMetrics (audioService freshReading) (- 15) = - 15"
    "getMetrics (audioService freshReading) (- 10) = - 10"
    "getMetrics (audioService freshReading) (- 51) = - 51"
    by (simp_all add: getMetrics_def freshReading_simps MIN_DECIBELS_def)
  note c = C2_classifier_partition [OF freshReading_simps(1), unfolded t SCREAM_THRESHOLD_DB_def]
  have "getVolumeStatus freshReading (- 50) = Good" using c [of "- 50"] by simp
  moreover have "getVolumeStatus freshReading (- 15) = Good" using c [of "- 15"] by simp
  moreover have "getVolumeStatus freshReading (- 10) = Loud" using c [of "- 10"] by simp
  moreover have "getVolumeStatus freshReading (- 51) = Quiet" using c [of "- 51"] by simp
  moreover have "validDuration (stats (tick (- 50) 0 freshReading)) \<noteq> 0 \<and>
      tooLoudDuration (stats (tick (- 50) 0 freshReading)) = 0"
    using c [where db = 0 and sensed = "- 50" and now = 0]
    by (simp add: m freshReading_simps(2) zeroStats_def first_delta)
  moreover have "validDuration (stats (tick (- 15) 0 freshReading)) \<noteq> 0 \<and>
      tooLoudDuration (stats (tick (- 15) 0 freshReading)) = 0"
    using c [where db = 0 and sensed = "- 15" and now = 0]
    by (simp add: m freshReading_simps(2) zeroStats_def first_delta)
  moreover have "validDuration (stats (tick (- 10) 0 freshReading)) = 0 \<and>
      tooLoudDuration (stats (tick (- 10) 0 freshReading)) \<noteq> 0"
    using c [where db = 0 and sensed = "- 10" and now = 0]
    by (simp add: m freshReading_simps(2) zeroStats_def first_delta)
  moreover have "validDuration (stats (tick (- 51) 0 freshReading)) = 0 \<and>
      tooLoudDuration (stats (tick (- 51) 0 freshReading)) = 0"
    using c [where db = 0 and sensed = "- 51" and now = 0]
    by (simp add: m freshReading_simps(2) zeroStats_def first_delta)
  ultimately show ?thesis using t freshReading_simps(1,2) by simp
qed

subsection \<open>C3: the update of a tick\<close>

text \<open>
  Claim C3. A tick of a reading session, whose time delta is the update interval
  divided by 1000, changes the statistics in this way and no other: a loud tick adds the
  delta to \<open>duration\<close> and \<open>tooLoudDuration\<close>; a good tick adds it to \<open>duration\<close>
  and \<open>validDuration\<close> and sets \<open>treesPlanted\<close> to the floor of the new
  \<open>validDuration\<close> divided by the tree cycle; a quiet tick adds it to \<open>duration\<close>
  only. The state of the session stays \<open>READING\<close>, and the noise floor, the error
  message, the start of the calibration and the audio service are unchanged.
\<close>

theorem C3_accumulator_update:
  assumes "appState s = READING"
  shows "(verdict s (sensed, now) = Loud \<longrightarrow>
       stats (tick sensed now s) =
         (stats s)\<lparr>duration := fadd (duration (stats s)) timeDelta,
                   tooLoudDuration := fadd (tooLoudDuration (stats s)) timeDelta\<rparr>) \<and>
    (verdict s (sensed, now) = Good \<longrightarrow>
       stats (tick sensed now s) =
         (stats s)\<lparr>duration := fadd (duration (stats s)) timeDelta,
                   validDuration := fadd (validDuration (stats s)) timeDelta,
                   treesPlanted :=
                     Math_floor (fdiv (fadd (validDuration (stats s)) timeDelta)
                       TREE_CYCLE_SECONDS)\<rparr>) \<and>
    (verdict s (sensed, now) = Quiet \<longrightarrow>
       stats (tick sensed now s) =
         (stats s)\<lparr>duration := fadd (duration (stats s)) timeDelta\<rparr>) \<and>
    (verdict s (sensed, now) = Loud \<or> verdict s (sensed, now) = Good \<or>
       verdict s (sensed, now) = Quiet) \<and>
    timeDelta = fdiv UPDATE_INTERVAL_MS 1000 \<and>
    appState (tick sensed now s) = READING \<and>
    noiseFloor (tick sensed now s) = noiseFloor s \<and>
    permissionError (tick sensed now s) = permissionError s \<and>
    calibrationStartTime (tick sensed now s) = calibrationStartTime s \<and>
    audioService (tick sensed now s) = audioService s"
  using tickWith_reading_stats [OF assms, of EMA_ALPHA sensed now]
    tickWith_reading [OF assms, of EMA_ALPHA sensed now] verdict_reading [OF assms, of "(sensed, now)"]
  by (auto simp: tick_def timeDelta_def)

text \<open>The theorem at the first tick of a fresh reading session, for each class.\<close>

theorem C3_accumulator_update_witness:
  "appState freshReading = READING \<and>
   stats (tick (- 40) 0 freshReading) =
     \<lparr>duration = 3602879701896397 / 36028797018963968,
      validDuration = 3602879701896397 / 36028797018963968,
      tooLoudDuration = 0, treesPlanted = 0\<rparr> \<and>
   stats (tick (- 10) 0 freshReading) =
     \<lparr>duration = 3602879701896397 / 36028797018963968, validDuration = 0,
      tooLoudDuration = 3602879701896397 / 36028797018963968, treesPlanted = 0\<rparr> \<and>
   stats (tick (- 70) 0 freshReading) =
     \<lparr>duration = 3602879701896397 / 36028797018963968, validDuration = 0,
      tooLoudDuration = 0, treesPlanted = 0\<rparr> \<and>
   appState (tick (- 40) 0 freshReading) = READING"
proof -
  have a: "fadd 0 timeDelta = 3602879701896397 / 36028797018963968"
    using accumulate.simps(2) [of 0] accumulate_1 by simp
  have fl: "Math_floor (fdiv (3602879701896397 / 36028797018963968) TREE_CYCLE_SECONDS) = 0"
    by (simp add: Math_floor_def fdiv_def TREE_CYCLE_SECONDS_val round64_at)
  note c = C3_accumulator_update [OF freshReading_simps(1)]
  have "stats (tick (- 40) 0 freshReading) =
     \<lparr>duration = 3602879701896397 / 36028797018963968,
      validDuration = 3602879701896397 / 36028797018963968,
      tooLoudDuration = 0, treesPlanted = 0\<rparr>"
    using c [of "- 40" 0] by (simp add: verdict_freshReading freshReading_simps zeroStats_def a fl)
  moreover have "stats (tick (- 10) 0 freshReading) =
     \<lparr>duration = 3602879701896397 / 36028797018963968, validDuration = 0,
      tooLoudDuration = 3602879701896397 / 36028797018963968, treesPlanted = 0\<rparr>"
    using c [of "- 10" 0] by (simp add: verdict_freshReading freshReading_simps zeroStats_def a)
  moreover have "stats (tick (- 70) 0 freshReading) =
     \<lparr>duration = 3602879701896397 / 36028797018963968, validDuration = 0,
      tooLoudDuration = 0, treesPlanted = 0\<rparr>"
    using c [of "- 70" 0] by (simp add: verdict_freshReading freshReading_simps zeroStats_def a)
  moreover have "appState (tick (- 40) 0 freshReading) = READING"
    using c [of "- 40" 0] by simp
  ultimately show ?thesis using freshReading_simps(1) by blast
qed

subsection \<open>C4: a hundred good ticks\<close>










subsection \<open>C5: the end of a calibration\<close>

lemma runTicks_not_armed: "\<not> timerArmed s \<Longrightarrow> runTicks s ts = s"
  by (induction ts) (simp_all add: runTicks_Nil runTicks_Cons)

lemma tickWith_calibrating_expired:
  assumes "appState s = CALIBRATING" and "now - calibrationStartTime s > CALIBRATION_DURATION_MS"
  shows "appState (tickWith alpha x now s) = IDLE"
    and "noiseFloor (tickWith alpha x now s) = max (- 80) (min (- 30) (getMetrics (audioService s) x))"
  using assms by (simp_all add: tickWith_def Let_def)

lemma tickWith_calibrating_running:
  assumes "appState s = CALIBRATING" and "\<not> now - calibrationStartTime s > CALIBRATION_DURATION_MS"
  shows "appState (tickWith alpha x now s) = CALIBRATING"
    and "noiseFloor (tickWith alpha x now s) = noiseFloor s"
    and "calibrationStartTime (tickWith alpha x now s) = calibrationStartTime s"
    and "audioService (tickWith alpha x now s) = audioService s"
  using assms by (simp_all add: tickWith_def Let_def)

lemma calibration_run:
  assumes "appState s = CALIBRATING"
    and "analyser (audioService s)" and "dataArray (audioService s)"
    and "\<forall>t \<in> set ts. fst t = c"
    and "\<exists>t \<in> set ts. snd t - calibrationStartTime s > CALIBRATION_DURATION_MS"
  shows "appState (runTicks s ts) = IDLE \<and>
    noiseFloor (runTicks s ts) = max (- 80) (min (- 30) (max MIN_DECIBELS (min c 0)))"
  using assms
proof (induction ts arbitrary: s)
  case Nil
  then show ?case by simp
next
  case (Cons t ts)
  have armed: "timerArmed s" using Cons.prems(1) by (simp add: timerArmed_def)
  have ft: "fst t = c" using Cons.prems(4) by simp
  show ?case
  proof (cases "snd t - calibrationStartTime s > CALIBRATION_DURATION_MS")
    case True
    let ?s' = "tick (fst t) (snd t) s"
    have i: "appState ?s' = IDLE"
      and n: "noiseFloor ?s' = max (- 80) (min (- 30) (getMetrics (audioService s) (fst t)))"
      using tickWith_calibrating_expired [OF Cons.prems(1) True] by (simp_all add: tick_def)
    from i have "\<not> timerArmed ?s'" by (simp add: timerArmed_def)
    then have "runTicks ?s' ts = ?s'" by (rule runTicks_not_armed)
    with armed have "runTicks s (t # ts) = ?s'" by (simp add: runTicks_Cons)
    with i n ft Cons.prems(2,3) show ?thesis by (simp add: getMetrics_def)
  next
    case False
    let ?s' = "tick (fst t) (snd t) s"
    note k = tickWith_calibrating_running [OF Cons.prems(1) False, of EMA_ALPHA "fst t", folded tick_def]
    from Cons.prems(5) False k(3)
    have ex: "\<exists>t \<in> set ts. snd t - calibrationStartTime ?s' > CALIBRATION_DURATION_MS" by auto
    have "appState (runTicks ?s' ts) = IDLE \<and>
      noiseFloor (runTicks ?s' ts) = max (- 80) (min (- 30) (max MIN_DECIBELS (min c 0)))"
      using k Cons.prems(2,3,4) ex by (intro Cons.IH) simp_all
    with armed show ?thesis by (simp add: runTicks_Cons)
  qed
qed

lemma calibrating_simps:
  "appState calibrating = CALIBRATING" "calibrationStartTime calibrating = 0"
  "analyser (audioService calibrating)" "dataArray (audioService calibrating)"
  by (simp_all add: calibrating_def handleStartCalibration_def initialApp_def start_def Let_def)

text \<open>
  Claim C5. The tick of a calibration whose elapsed time exceeds the calibration
  duration stores the level of this tick, clamped into \<open>[- 80, - 30]\<close>, as the noise
  floor, and sets the state to \<open>IDLE\<close>. Hence, with a working audio service, a stream
  of ticks that all sense the level \<open>c\<close>, one of them past the calibration duration,
  ends in \<open>IDLE\<close> with the clamped \<open>c\<close> as the noise floor: \<open>- 45\<close> for \<open>- 45\<close>,
  \<open>- 80\<close> for \<open>- 95\<close> and \<open>- 30\<close> for \<open>- 5\<close>.
\<close>

theorem C5_calibration_expiry:
  assumes "appState s = CALIBRATING"
  shows "(now - calibrationStartTime s > CALIBRATION_DURATION_MS \<longrightarrow>
       noiseFloor (tick sensed now s) = max (- 80) (min (- 30) (getMetrics (audioService s) sensed)) \<and>
       - 80 \<le> noiseFloor (tick sensed now s) \<and> noiseFloor (tick sensed now s) \<le> - 30 \<and>
       appState (tick sensed now s) = IDLE) \<and>
    (analyser (audioService s) \<and> dataArray (audioService s) \<and> (\<forall>t \<in> set ts. fst t = c) \<and>
     (\<exists>t \<in> set ts. snd t - calibrationStartTime s > CALIBRATION_DURATION_MS) \<longrightarrow>
       appState (runTicks s ts) = IDLE \<and>
       noiseFloor (runTicks s ts) = max (- 80) (min (- 30) (max (- 100) (min c 0))) \<and>
       (c = - 45 \<longrightarrow> noiseFloor (runTicks s ts) = - 45) \<and>
       (c = - 95 \<longrightarrow> noiseFloor (runTicks s ts) = - 80) \<and>
       (c = - 5 \<longrightarrow> noiseFloor (runTicks s ts) = - 30))"
proof (intro conjI impI)
  assume e: "now - calibrationStartTime s > CALIBRATION_DURATION_MS"
  note x = tickWith_calibrating_expired [OF assms e, of EMA_ALPHA sensed, folded tick_def]
  show "noiseFloor (tick sensed now s) = max (- 80) (min (- 30) (getMetrics (audioService s) sensed))"
    by (rule x(2))
  show "- 80 \<le> noiseFloor (tick sensed now s)" unfolding x(2) by simp
  show "noiseFloor (tick sensed now s) \<le> - 30" unfolding x(2) by simp
  show "appState (tick sensed now s) = IDLE" by (rule x(1))
next
  assume h: "analyser (audioService s) \<and> dataArray (audioService s) \<and> (\<forall>t \<in> set ts. fst t = c) \<and>
     (\<exists>t \<in> set ts. snd t - calibrationStartTime s > CALIBRATION_DURATION_MS)"
  then have r: "appState (runTicks s ts) = IDLE \<and>
    noiseFloor (runTicks s ts) = max (- 80) (min (- 30) (max MIN_DECIBELS (min c 0)))"
    using assms by (intro calibration_run) simp_all
  from r show "appState (runTicks s ts) = IDLE" by simp
  from r show n: "noiseFloor (runTicks s ts) = max (- 80) (min (- 30) (max (- 100) (min c 0)))"
    by (simp add: MIN_DECIBELS_def)
  { assume "c = - 45" with n show "noiseFloor (runTicks s ts) = - 45" by simp }
  { assume "c = - 95" with n show "noiseFloor (runTicks s ts) = - 80" by simp }
  { assume "c = - 5" with n show "noiseFloor (runTicks s ts) = - 30" by simp }
qed

text \<open>
  The theorem at a calibration started at time 0 and ticked at 1000, 2000, 3000 and
  3100 milliseconds, for each of the three levels.
\<close>

theorem C5_calibration_expiry_witness:
  "appState calibrating = CALIBRATING \<and>
   noiseFloor (runTicks calibrating [(- 45, 1000), (- 45, 2000), (- 45, 3000), (- 45, 3100)]) = - 45 \<and>
   noiseFloor (runTicks calibrating [(- 95, 1000), (- 95, 2000), (- 95, 3000), (- 95, 3100)]) = - 80 \<and>
   noiseFloor (runTicks calibrating [(- 5, 1000), (- 5, 2000), (- 5, 3000), (- 5, 3100)]) = - 30 \<and>
   appState (runTicks calibrating [(- 45, 1000), (- 45, 2000), (- 45, 3000), (- 45, 3100)]) = IDLE \<and>
   noiseFloor (tick (- 45) 3100 calibrating) = - 45 \<and>
   appState (tick (- 45) 3100 calibrating) = IDLE"
proof -
  note c = C5_calibration_expiry [OF calibrating_simps(1)]
  have a: "noiseFloor (runTicks calibrating [(- 45, 1000), (- 45, 2000), (- 45, 3000), (- 45, 3100)]) = - 45"
    and i: "appState (runTicks calibrating [(- 45, 1000), (- 45, 2000), (- 45, 3000), (- 45, 3100)]) = IDLE"
    using c [of 0 0 "[(- 45, 1000), (- 45, 2000), (- 45, 3000), (- 45, 3100)]" "- 45"]
    by (simp_all add: calibrating_simps CALIBRATION_DURATION_MS_def)
  have b: "noiseFloor (runTicks calibrating [(- 95, 1000), (- 95, 2000), (- 95, 3000), (- 95, 3100)]) = - 80"
    using c [of 0 0 "[(- 95, 1000), (- 95, 2000), (- 95, 3000), (- 95, 3100)]" "- 95"]
    by (simp add: calibrating_simps CALIBRATION_DURATION_MS_def)
  have d: "noiseFloor (runTicks calibrating [(- 5, 1000), (- 5, 2000), (- 5, 3000), (- 5, 3100)]) = - 30"
    using c [of 0 0 "[(- 5, 1000), (- 5, 2000), (- 5, 3000), (- 5, 3100)]" "- 5"]
    by (simp add: calibrating_simps CALIBRATION_DURATION_MS_def)
  have e: "noiseFloor (tick (- 45) 3100 calibrating) = - 45 \<and> appState (tick (- 45) 3100 calibrating) = IDLE"
    using c [of 3100 "- 45" "[]" 0]
    by (simp add: calibrating_simps CALIBRATION_DURATION_MS_def getMetrics_def MIN_DECIBELS_def)
  from a b d e i calibrating_simps(1) show ?thesis by blast
qed

subsection \<open>C6: a failed acquisition of the microphone\<close>

lemma goodLoudQuiet_run:
  "appState (runTicks freshReading goodLoudQuiet) = READING"
  "duration (stats (runTicks freshReading goodLoudQuiet)) = 1351079888211149 / 4503599627370496"
  "validDuration (stats (runTicks freshReading goodLoudQuiet))
     = 3602879701896397 / 36028797018963968"
  "tooLoudDuration (stats (runTicks freshReading goodLoudQuiet))
     = 3602879701896397 / 36028797018963968"
proof -
  have l3: "length goodLoudQuiet = 3"
    by (simp add: goodLoudQuiet_def)
  have lg: "length (filter (\<lambda>t. verdict freshReading t = Good) goodLoudQuiet) = 1"
    by (simp add: goodLoudQuiet_def verdict_freshReading)
  have ll: "length (filter (\<lambda>t. verdict freshReading t = Loud) goodLoudQuiet) = 1"
    by (simp add: goodLoudQuiet_def verdict_freshReading)
  note r = reading_run [OF freshReading_simps(1,2), of goodLoudQuiet,
      unfolded l3 lg ll accumulate_3 accumulate_1]
  from r show "appState (runTicks freshReading goodLoudQuiet) = READING" by blast
  from r show "duration (stats (runTicks freshReading goodLoudQuiet))
      = 1351079888211149 / 4503599627370496" by blast
  from r show "validDuration (stats (runTicks freshReading goodLoudQuiet))
     = 3602879701896397 / 36028797018963968" by blast
  from r show "tooLoudDuration (stats (runTicks freshReading goodLoudQuiet))
     = 3602879701896397 / 36028797018963968" by blast
qed

lemma start_fails_no_context:
  "fst (start env a) = Inl e \<Longrightarrow> \<not> audioContext a"
  by (auto simp: start_def)

text \<open>
  Claim C6. When the acquisition of the microphone fails in
  \<open>handleStartCalibration\<close> or in \<open>handleStartReading\<close>, the state of the session,
  the statistics, the noise floor, the smoothed level and the start of the calibration
  are what they were, and the error message of the handler is set. From \<open>IDLE\<close> the
  interval is not set afterwards, so that no tick runs: the component stays as the
  failure left it until the next action of the user.
\<close>

theorem C6_acquisition_failure:
  assumes "fst (start env (audioService s)) = Inl e"
  shows "appState (handleStartCalibration env now s) = appState s \<and>
    stats (handleStartCalibration env now s) = stats s \<and>
    noiseFloor (handleStartCalibration env now s) = noiseFloor s \<and>
    currentDb (handleStartCalibration env now s) = currentDb s \<and>
    calibrationStartTime (handleStartCalibration env now s) = calibrationStartTime s \<and>
    permissionError (handleStartCalibration env now s) = Some AllowMicrophoneToUseApp \<and>
    appState (handleStartReading env s) = appState s \<and>
    stats (handleStartReading env s) = stats s \<and>
    noiseFloor (handleStartReading env s) = noiseFloor s \<and>
    currentDb (handleStartReading env s) = currentDb s \<and>
    calibrationStartTime (handleStartReading env s) = calibrationStartTime s \<and>
    permissionError (handleStartReading env s) = Some MicrophonePermissionNeeded \<and>
    (appState s = IDLE \<longrightarrow>
       \<not> timerArmed (handleStartCalibration env now s) \<and>
       \<not> timerArmed (handleStartReading env s) \<and>
       (\<forall>ts. runTicks (handleStartCalibration env now s) ts = handleStartCalibration env now s) \<and>
       (\<forall>ts. runTicks (handleStartReading env s) ts = handleStartReading env s))"
proof -
  obtain a where st: "start env (audioService s) = (Inl e, a)"
    using assms by (cases "start env (audioService s)") simp
  have nc: "\<not> audioContext (audioService s)"
    using assms by (rule start_fails_no_context)
  have c: "handleStartCalibration env now s =
      s\<lparr>permissionError := Some AllowMicrophoneToUseApp, audioService := a\<rparr>"
    by (simp add: handleStartCalibration_def Let_def st)
  have r: "handleStartReading env s =
      s\<lparr>permissionError := Some MicrophonePermissionNeeded, audioService := a\<rparr>"
    using nc by (simp add: handleStartReading_def Let_def st)
  show ?thesis
    unfolding c r by (auto simp: timerArmed_def intro: runTicks_not_armed)
qed

text \<open>The theorem at the first press of either button, the browser refusing the microphone.\<close>

theorem C6_acquisition_failure_witness:
  "fst (start GetUserMediaRejects (audioService initialApp)) = Inl MicrophoneError \<and>
   appState (handleStartCalibration GetUserMediaRejects 0 initialApp) = IDLE \<and>
   stats (handleStartCalibration GetUserMediaRejects 0 initialApp) = zeroStats \<and>
   noiseFloor (handleStartCalibration GetUserMediaRejects 0 initialApp) = - 60 \<and>
   permissionError (handleStartCalibration GetUserMediaRejects 0 initialApp)
     = Some AllowMicrophoneToUseApp \<and>
   appState (handleStartReading GetUserMediaRejects initialApp) = IDLE \<and>
   stats (handleStartReading GetUserMediaRejects initialApp) = zeroStats \<and>
   noiseFloor (handleStartReading GetUserMediaRejects initialApp) = - 60 \<and>
   permissionError (handleStartReading GetUserMediaRejects initialApp)
     = Some MicrophonePermissionNeeded \<and>
   runTicks (handleStartReading GetUserMediaRejects initialApp) [(- 40, 0), (- 40, 100)]
     = handleStartReading GetUserMediaRejects initialApp"
proof -
  have f: "fst (start GetUserMediaRejects (audioService initialApp)) = Inl MicrophoneError"
    by (simp add: start_def initialApp_def)
  have i: "appState initialApp = IDLE" "stats initialApp = zeroStats" "noiseFloor initialApp = - 60"
    by (simp_all add: initialApp_def DEFAULT_NOISE_FLOOR_DB_def)
  from C6_acquisition_failure [OF f, of 0] f i show ?thesis by simp
qed

subsection \<open>C7: reset and continue\<close>

text \<open>
  Claim C7. \<open>handleReset\<close> and \<open>handleContinue\<close> set the four fields of the
  statistics to zero, all in one update, and set the state to \<open>IDLE\<close>; the reset button
  does so from \<open>READING\<close> and \<open>PAUSED\<close>, the continue button from \<open>COMPLETED\<close>.
\<close>

theorem C7_reset_zeroes_all:
  "stats (handleReset s) = zeroStats \<and>
   duration (stats (handleReset s)) = 0 \<and> validDuration (stats (handleReset s)) = 0 \<and>
   tooLoudDuration (stats (handleReset s)) = 0 \<and> treesPlanted (stats (handleReset s)) = 0 \<and>
   appState (handleReset s) = IDLE \<and>
   stats (handleContinue s) = zeroStats \<and>
   duration (stats (handleContinue s)) = 0 \<and> validDuration (stats (handleContinue s)) = 0 \<and>
   tooLoudDuration (stats (handleContinue s)) = 0 \<and> treesPlanted (stats (handleContinue s)) = 0 \<and>
   appState (handleContinue s) = IDLE \<and>
   step (s\<lparr>appState := READING\<rparr>) Reset = handleReset s \<and>
   step (s\<lparr>appState := PAUSED\<rparr>) Reset = handleReset s \<and>
   step (s\<lparr>appState := COMPLETED\<rparr>) Continue = handleContinue s"
  by (simp add: handleReset_def handleContinue_def zeroStats_def step_def stepWith_def)

text \<open>The theorem after a session of three ticks, whose duration is not zero.\<close>

theorem C7_reset_zeroes_all_witness:
  "stats (handleReset (runTicks freshReading goodLoudQuiet)) = zeroStats \<and>
   appState (handleReset (runTicks freshReading goodLoudQuiet)) = IDLE \<and>
   duration (stats (runTicks freshReading goodLoudQuiet)) \<noteq> 0 \<and>
   stats (handleContinue (handleStop (runTicks freshReading goodLoudQuiet))) = zeroStats \<and>
   appState (handleContinue (handleStop (runTicks freshReading goodLoudQuiet))) = IDLE"
proof -
  have d: "duration (stats (runTicks freshReading goodLoudQuiet)) \<noteq> 0"
    unfolding goodLoudQuiet_run by simp
  from C7_reset_zeroes_all [of "runTicks freshReading goodLoudQuiet"]
    C7_reset_zeroes_all [of "handleStop (runTicks freshReading goodLoudQuiet)"] d
  show ?thesis by simp
qed

subsection \<open>C8: the noise floor changes only when a calibration ends\<close>

lemma handlers_noiseFloor:
  "noiseFloor (handleStartCalibration env now s) = noiseFloor s"
  "noiseFloor (handleStartReading env s) = noiseFloor s"
  "noiseFloor (handleStop s) = noiseFloor s"
  "noiseFloor (handleReset s) = noiseFloor s"
  "noiseFloor (handleContinue s) = noiseFloor s"
  by (simp_all add: handleStartCalibration_def handleStartReading_def handleStop_def
      handleReset_def handleContinue_def Let_def split: prod.splits sum.splits)

lemma tickWith_noiseFloor_changes:
  assumes "noiseFloor (tickWith alpha sensed now s) \<noteq> noiseFloor s"
  shows "appState s = CALIBRATING \<and> now - calibrationStartTime s > CALIBRATION_DURATION_MS"
  using assms by (auto simp: tickWith_def Let_def split: if_splits)

lemma stepWith_noiseFloor_changes:
  assumes "noiseFloor (stepWith alpha s e) \<noteq> noiseFloor s"
  shows "\<exists>sensed now. e = Tick sensed now \<and> appState s = CALIBRATING \<and>
    now - calibrationStartTime s > CALIBRATION_DURATION_MS"
proof (cases e)
  case (Tick sensed now)
  with assms have "noiseFloor (tickWith alpha sensed now s) \<noteq> noiseFloor s"
    by (auto simp: stepWith_def split: if_splits)
  then show ?thesis using Tick tickWith_noiseFloor_changes by blast
qed (use assms in \<open>auto simp: stepWith_def handlers_noiseFloor split: if_splits\<close>)

lemma stepWith_stays_uncalibrated:
  assumes "appState s \<noteq> CALIBRATING" and "\<forall>env now. e \<noteq> StartCalibration env now"
  shows "appState (stepWith alpha s e) \<noteq> CALIBRATING"
  using assms
  by (cases e)
    (auto simp: stepWith_def timerArmed_def tickWith_def Let_def handleStartReading_def
      handleStop_def handleReset_def handleContinue_def split: prod.splits sum.splits)

lemma runWith_uncalibrated:
  assumes "appState s \<noteq> CALIBRATING" and "\<forall>env now. StartCalibration env now \<notin> set evs"
  shows "noiseFloor (runWith alpha s evs) = noiseFloor s"
  using assms
proof (induction evs arbitrary: s)
  case Nil
  show ?case by simp
next
  case (Cons e evs)
  from Cons.prems(2) have ne: "\<forall>env now. e \<noteq> StartCalibration env now" by auto
  have a: "appState (stepWith alpha s e) \<noteq> CALIBRATING"
    using Cons.prems(1) ne by (rule stepWith_stays_uncalibrated)
  have n: "noiseFloor (stepWith alpha s e) = noiseFloor s"
    using stepWith_noiseFloor_changes [of alpha s e] Cons.prems(1) by blast
  from Cons.prems(2) have "\<forall>env now. StartCalibration env now \<notin> set evs" by simp
  with a have "noiseFloor (runWith alpha (stepWith alpha s e) evs) = noiseFloor (stepWith alpha s e)"
    by (rule Cons.IH)
  with n show ?case by simp
qed

text \<open>
  Claim C8. No handler changes the noise floor, and no tick of a reading session does;
  the only step that changes it is a tick of a calibration whose elapsed time exceeds
  the calibration duration. The component starts with the default noise floor and, as
  long as no calibration is started, keeps it.
\<close>

theorem C8_noise_floor_frame:
  "noiseFloor (handleStartReading env s) = noiseFloor s \<and>
   noiseFloor (handleStop s) = noiseFloor s \<and>
   noiseFloor (handleReset s) = noiseFloor s \<and>
   noiseFloor (handleContinue s) = noiseFloor s \<and>
   noiseFloor (handleStartCalibration env now s) = noiseFloor s \<and>
   (appState s = READING \<longrightarrow> noiseFloor (tick sensed now s) = noiseFloor s) \<and>
   (noiseFloor (step s e) \<noteq> noiseFloor s \<longrightarrow>
      (\<exists>x t. e = Tick x t \<and> appState s = CALIBRATING \<and>
         t - calibrationStartTime s > CALIBRATION_DURATION_MS)) \<and>
   noiseFloor initialApp = DEFAULT_NOISE_FLOOR_DB \<and>
   ((\<forall>env t. StartCalibration env t \<notin> set evs) \<longrightarrow>
      noiseFloor (run initialApp evs) = DEFAULT_NOISE_FLOOR_DB)"
proof -
  have r: "appState s = READING \<longrightarrow> noiseFloor (tick sensed now s) = noiseFloor s"
    using tickWith_reading(2) [of s EMA_ALPHA sensed now] by (simp add: tick_def)
  have st: "noiseFloor (step s e) \<noteq> noiseFloor s \<longrightarrow>
      (\<exists>x t. e = Tick x t \<and> appState s = CALIBRATING \<and>
         t - calibrationStartTime s > CALIBRATION_DURATION_MS)"
    using stepWith_noiseFloor_changes [of EMA_ALPHA s e] by (simp add: step_def)
  have i: "noiseFloor initialApp = DEFAULT_NOISE_FLOOR_DB" "appState initialApp \<noteq> CALIBRATING"
    by (simp_all add: initialApp_def)
  have ru: "(\<forall>env t. StartCalibration env t \<notin> set evs) \<longrightarrow>
      noiseFloor (run initialApp evs) = DEFAULT_NOISE_FLOOR_DB"
    using runWith_uncalibrated [OF i(2), of evs EMA_ALPHA] i(1) by (simp add: run_def)
  from handlers_noiseFloor r st i(1) ru show ?thesis by blast
qed

text \<open>
  The theorem at a session with two readings and no calibration, at a reset and a tick
  of a fresh reading session, and at the tick that ends a calibration.
\<close>

theorem C8_noise_floor_frame_witness:
  "noiseFloor (run initialApp shortSession) = - 60 \<and>
   noiseFloor (handleReset freshReading) = - 60 \<and>
   noiseFloor (tick (- 40) 0 freshReading) = - 60 \<and>
   noiseFloor (step calibrating (Tick (- 45) 3100)) = - 45 \<and>
   appState calibrating = CALIBRATING \<and>
   3100 - calibrationStartTime calibrating > CALIBRATION_DURATION_MS"
proof -
  have n: "\<forall>env t. StartCalibration env t \<notin> set shortSession"
    by (simp add: shortSession_def)
  have a: "noiseFloor (run initialApp shortSession) = - 60"
    using C8_noise_floor_frame [where s = initialApp and evs = shortSession] n
    by (simp add: DEFAULT_NOISE_FLOOR_DB_def)
  have b: "noiseFloor (handleReset freshReading) = - 60"
    "noiseFloor (tick (- 40) 0 freshReading) = - 60"
    using C8_noise_floor_frame [where s = freshReading and sensed = "- 40" and now = 0]
    by (simp_all add: freshReading_simps)
  have c: "noiseFloor (step calibrating (Tick (- 45) 3100)) = - 45"
    using tickWith_calibrating_expired(2) [of calibrating 3100 EMA_ALPHA "- 45"]
    by (simp add: step_def stepWith_def timerArmed_def calibrating_simps
        CALIBRATION_DURATION_MS_def getMetrics_def MIN_DECIBELS_def)
  have d: "3100 - calibrationStartTime calibrating > CALIBRATION_DURATION_MS"
    by (simp add: calibrating_simps CALIBRATION_DURATION_MS_def)
  from a b c d calibrating_simps(1) show ?thesis by blast
qed

subsection \<open>C9: the smoothed level does not influence the score\<close>

lemma scoringEq_tickWith:
  assumes "scoringEq s1 s2"
  shows "scoringEq (tickWith a1 sensed now s1) (tickWith a2 sensed now s2)"
  using assms by (simp add: scoringEq_def tickWith_def Let_def targetDb_def)

lemma scoringEq_stepWith:
  assumes "scoringEq s1 s2"
  shows "scoringEq (stepWith a1 s1 e) (stepWith a2 s2 e)"
proof (cases e)
  case (Tick sensed now)
  with assms scoringEq_tickWith [OF assms, of a1 sensed now a2] show ?thesis
    by (auto simp: stepWith_def timerArmed_def scoringEq_def)
qed (use assms in \<open>auto simp: stepWith_def scoringEq_def handleStartCalibration_def
    handleStartReading_def handleStop_def handleReset_def handleContinue_def Let_def
    split: prod.splits sum.splits\<close>)

lemma scoringEq_runWith:
  assumes "scoringEq s1 s2"
  shows "scoringEq (runWith a1 s1 evs) (runWith a2 s2 evs)"
  using assms by (induction evs arbitrary: s1 s2) (simp_all add: scoringEq_stepWith)

lemma tickWith_currentDb:
  "currentDb (tickWith alpha sensed now s) =
     fadd (fmul (currentDb s) (fsub 1 alpha)) (fmul (getMetrics (audioService s) sensed) alpha)"
  by (simp add: tickWith_def Let_def)

lemma EMA_ALPHA_val: "EMA_ALPHA = 3602879701896397 / 18014398509481984"
  by (simp add: EMA_ALPHA_def round64_at)

lemma one_minus_alpha:
  "fsub 1 (3602879701896397 / 18014398509481984) = 3602879701896397 / 4503599627370496"
  by (simp add: fsub_def round64_at)

lemma smooth_steps:
  "fadd (fmul (- 100) (fsub 1 EMA_ALPHA)) (fmul (- 45) EMA_ALPHA) = - 89"
  "fadd (fmul (- 89) (fsub 1 EMA_ALPHA)) (fmul (- 45) EMA_ALPHA)
     = - (5643573283048653 / 70368744177664)"
  "fadd (fmul (- (5643573283048653 / 70368744177664)) (fsub 1 EMA_ALPHA)) (fmul (- 30) EMA_ALPHA)
     = - (4937071091504907 / 70368744177664)"
  "fadd (fmul (- (4937071091504907 / 70368744177664)) (fsub 1 EMA_ALPHA)) (fmul (- 10) EMA_ALPHA)
     = - (2045197180779627 / 35184372088832)"
  by (simp_all add: EMA_ALPHA_val one_minus_alpha fadd_def fmul_def round64_at)

lemma calibrating_currentDb: "currentDb calibrating = - 100"
  by (simp add: calibrating_def handleStartCalibration_def initialApp_def start_def Let_def)

lemma first_tick_smoothed:
  "currentDb (tick (- 45) 1000 calibrating) = - 89"
  "currentDb (tickWith 1 (- 45) 1000 (calibrating\<lparr>currentDb := 0\<rparr>)) = - 45"
proof -
  have g: "getMetrics (audioService calibrating) (- 45) = - 45"
    by (simp add: getMetrics_def calibrating_simps MIN_DECIBELS_def)
  have "currentDb (tick (- 45) 1000 calibrating) =
      fadd (fmul (- 100) (fsub 1 EMA_ALPHA)) (fmul (- 45) EMA_ALPHA)"
    by (simp add: tick_def tickWith_def Let_def g calibrating_currentDb)
  then show "currentDb (tick (- 45) 1000 calibrating) = - 89"
    by (simp only: smooth_steps)
  have "currentDb (tickWith 1 (- 45) 1000 (calibrating\<lparr>currentDb := 0\<rparr>)) =
      fadd (fmul 0 (fsub 1 1)) (fmul (- 45) 1)"
    by (simp add: tickWith_def Let_def g)
  then show "currentDb (tickWith 1 (- 45) 1000 (calibrating\<lparr>currentDb := 0\<rparr>)) = - 45"
    by (simp add: fadd_def fmul_def fsub_def)
qed

text \<open>
  Claim C9. A tick sets the smoothed level to \<open>previous * (1 - alpha) + db * alpha\<close>,
  and nothing else reads it: two components that differ at most in the smoothed level,
  run with any two smoothing constants on the same sensed levels, clock values and
  actions, still differ at most in the smoothed level. Their statistics, noise floors
  and states are equal after each tick and at the end of the run.
\<close>

theorem C9_smoothing_has_no_effect:
  assumes "scoringEq s1 s2"
  shows "scoringEq (tickWith a1 sensed now s1) (tickWith a2 sensed now s2) \<and>
    stats (tickWith a1 sensed now s1) = stats (tickWith a2 sensed now s2) \<and>
    noiseFloor (tickWith a1 sensed now s1) = noiseFloor (tickWith a2 sensed now s2) \<and>
    scoringEq (runWith a1 s1 evs) (runWith a2 s2 evs) \<and>
    stats (runWith a1 s1 evs) = stats (runWith a2 s2 evs) \<and>
    noiseFloor (runWith a1 s1 evs) = noiseFloor (runWith a2 s2 evs) \<and>
    appState (runWith a1 s1 evs) = appState (runWith a2 s2 evs) \<and>
    stats (run s1 evs) = stats (runWith a2 s2 evs) \<and>
    noiseFloor (run s1 evs) = noiseFloor (runWith a2 s2 evs) \<and>
    currentDb (tickWith a1 sensed now s1) =
      fadd (fmul (currentDb s1) (fsub 1 a1)) (fmul (getMetrics (audioService s1) sensed) a1)"
  using scoringEq_tickWith [OF assms, of a1 sensed now a2]
    scoringEq_runWith [OF assms, of a1 evs a2] scoringEq_runWith [OF assms, of EMA_ALPHA evs a2]
    tickWith_currentDb [of a1 sensed now s1]
  by (simp add: scoringEq_def run_def)

text \<open>
  The theorem at a calibration and at a whole session, the second component starting
  from the smoothed level 0 and smoothing with the constant 1: after the first tick the
  smoothed levels are \<open>- 89\<close> and \<open>- 45\<close>, the statistics and the noise floor are the
  same.
\<close>

theorem C9_smoothing_has_no_effect_witness:
  "scoringEq calibrating (calibrating\<lparr>currentDb := 0\<rparr>) \<and>
   currentDb (tick (- 45) 1000 calibrating) = - 89 \<and>
   currentDb (tickWith 1 (- 45) 1000 (calibrating\<lparr>currentDb := 0\<rparr>)) = - 45 \<and>
   stats (tick (- 45) 1000 calibrating)
     = stats (tickWith 1 (- 45) 1000 (calibrating\<lparr>currentDb := 0\<rparr>)) \<and>
   noiseFloor (tick (- 45) 1000 calibrating)
     = noiseFloor (tickWith 1 (- 45) 1000 (calibrating\<lparr>currentDb := 0\<rparr>)) \<and>
   scoringEq initialApp (initialApp\<lparr>currentDb := 0\<rparr>) \<and>
   stats (run initialApp calibratedSession)
     = stats (runWith 1 (initialApp\<lparr>currentDb := 0\<rparr>) calibratedSession) \<and>
   noiseFloor (run initialApp calibratedSession)
     = noiseFloor (runWith 1 (initialApp\<lparr>currentDb := 0\<rparr>) calibratedSession)"
proof -
  have e: "scoringEq calibrating (calibrating\<lparr>currentDb := 0\<rparr>)"
    by (simp add: scoringEq_def)
  have f: "scoringEq initialApp (initialApp\<lparr>currentDb := 0\<rparr>)"
    by (simp add: scoringEq_def)
  note a = C9_smoothing_has_no_effect [OF e, where ?a1.0 = EMA_ALPHA and ?a2.0 = 1
      and sensed = "- 45" and now = 1000, folded tick_def]
  note b = C9_smoothing_has_no_effect [OF f, where ?a2.0 = 1 and evs = calibratedSession]
  from a b e f first_tick_smoothed show ?thesis by blast
qed

subsection \<open>C10: stopping keeps the statistics\<close>

text \<open>
  Claim C10. \<open>handleStop\<close> sets the state to \<open>COMPLETED\<close> and leaves the four
  fields of the statistics as they were; the stop button does so from \<open>READING\<close>, and
  no later tick changes the stopped component.
\<close>

theorem C10_stop_keeps_stats:
  "stats (handleStop s) = stats s \<and>
   duration (stats (handleStop s)) = duration (stats s) \<and>
   validDuration (stats (handleStop s)) = validDuration (stats s) \<and>
   tooLoudDuration (stats (handleStop s)) = tooLoudDuration (stats s) \<and>
   treesPlanted (stats (handleStop s)) = treesPlanted (stats s) \<and>
   appState (handleStop s) = COMPLETED \<and>
   step (s\<lparr>appState := READING\<rparr>) Stop = handleStop s \<and>
   runTicks (handleStop s) ts = handleStop s"
proof -
  have "\<not> timerArmed (handleStop s)" by (simp add: timerArmed_def handleStop_def)
  then have "runTicks (handleStop s) ts = handleStop s" by (rule runTicks_not_armed)
  then show ?thesis by (simp add: handleStop_def step_def stepWith_def)
qed

text \<open>The theorem after a session of three ticks.\<close>

theorem C10_stop_keeps_stats_witness:
  "appState (runTicks freshReading goodLoudQuiet) = READING \<and>
   appState (handleStop (runTicks freshReading goodLoudQuiet)) = COMPLETED \<and>
   duration (stats (handleStop (runTicks freshReading goodLoudQuiet)))
     = 1351079888211149 / 4503599627370496 \<and>
   validDuration (stats (handleStop (runTicks freshReading goodLoudQuiet)))
     = 3602879701896397 / 36028797018963968 \<and>
   tooLoudDuration (stats (handleStop (runTicks freshReading goodLoudQuiet)))
     = 3602879701896397 / 36028797018963968"
proof -
  note r = goodLoudQuiet_run
  note c = C10_stop_keeps_stats [of "runTicks freshReading goodLoudQuiet"]
  from r c show ?thesis by metis
qed

end
